theory Spec2Isabelle
  imports Complex_Main "HOL-Library.Multiset" "HOL-Library.AList"
begin

section \<open>The coupling layer of CADET's model system\<close>

text \<open>
  A shallow embedding of \<^verbatim>\<open>src/libcadet/model/ModelSystemImpl.cpp\<close>. Unit operations
  are external collaborators; only the getters that the coupling layer reads are kept,
  as the fields of a record. \<^verbatim>\<open>unsigned int\<close> counters and indices are \<^typ>\<open>nat\<close> and
  \<^verbatim>\<open>int\<close> values are \<^typ>\<open>int\<close>: the functions modelled here compare and copy them and
  count up from 0; the sum of the sizes of the units, which can exceed 32 bits, wraps,
  and the one conversion from \<^verbatim>\<open>int\<close> to \<^verbatim>\<open>unsigned int\<close> that the functions rely on is
  written out.
\<close>

subsection \<open>Floating point numbers\<close>

text \<open>
  A value of the C++ type \<^verbatim>\<open>double\<close> is the real number that it holds; NaN and the
  infinities have no counterpart. Each arithmetic operation on doubles, and each decimal
  literal, yields the rounding of its exact value. The rounding is an argument \<open>rnd\<close> of
  every function below that computes with doubles: what holds for every \<open>rnd\<close> holds
  for the arithmetic of the machine as long as no operation overflows, and for exact
  arithmetic, where \<open>rnd\<close> is the identity.
\<close>

type_synonym rounding = "real \<Rightarrow> real"

text \<open>
  The rounding of IEEE 754 binary64 in its default mode: to the nearest number with 53
  significant bits, ties to the even one; below \<open>2\<^sup>-\<^sup>1\<^sup>0\<^sup>2\<^sup>2\<close> the spacing stays
  \<open>2\<^sup>-\<^sup>1\<^sup>0\<^sup>7\<^sup>4\<close> (subnormal numbers). \<open>binaryExponent x\<close> is the exponent \<open>e\<close> with
  \<open>2\<^sup>e \<le> x < 2\<^sup>e\<^sup>+\<^sup>1\<close>, found by halving the range of candidates (for \<open>x\<close> between
  \<open>2\<^sup>-\<^sup>2\<^sup>0\<^sup>4\<^sup>7\<close> and \<open>2\<^sup>2\<^sup>0\<^sup>4\<^sup>8\<close>). From \<open>2\<^sup>1\<^sup>0\<^sup>2\<^sup>4\<close> on a double is infinite: there the
  function keeps rounding to 53 bits, and no statement below reaches such a value.
\<close>

definition roundHalfEven :: "real \<Rightarrow> int" where
  "roundHalfEven q =
     (let f = \<lfloor>q\<rfloor>
      in if q - of_int f < 1 / 2 then f
         else if 1 / 2 < q - of_int f then f + 1
         else if even f then f else f + 1)"

definition binaryExponent :: "real \<Rightarrow> int" where
  "binaryExponent x =
     snd (fold (\<lambda>k (y, e). if 2 ^ k \<le> y then (y / 2 ^ k, e + int k)
                            else if y * 2 ^ k < 2 then (y * 2 ^ k, e - int k)
                            else (y, e))
            [1024, 512, 256, 128, 64, 32, 16, 8, 4, 2, 1] (x, 0))"

definition twoTo :: "int \<Rightarrow> real" where
  "twoTo k = (if 0 \<le> k then 2 ^ nat k else 1 / 2 ^ nat (- k))"

definition binary64 :: rounding where
  "binary64 x =
     (if x = 0 then 0
      else
        let e = max (binaryExponent \<bar>x\<bar>) (- 1022);
            ulp = twoTo (e - 52)
        in of_int (roundHalfEven (x / ulp)) * ulp)"

subsection \<open>Fusing status codes\<close>

text \<open>
  \<^verbatim>\<open>totalErrorIndicatorFromLocal\<close>: the loop over \<^verbatim>\<open>err\<close> with its accumulator
  \<^verbatim>\<open>totalError\<close>; the first negative entry is returned at once.
\<close>

fun totalErrorLoop :: "int \<Rightarrow> int list \<Rightarrow> int" where
  "totalErrorLoop totalError [] = totalError"
| "totalErrorLoop totalError (e # err) =
     (if e < 0 then e else totalErrorLoop (max totalError e) err)"

definition totalErrorIndicatorFromLocal :: "int list \<Rightarrow> int" where
  "totalErrorIndicatorFromLocal err = totalErrorLoop 0 err"

definition updateErrorIndicator :: "int \<Rightarrow> int \<Rightarrow> int" where
  "updateErrorIndicator curCode nextCode =
     (if curCode < 0 \<or> nextCode < 0 then min curCode nextCode else max curCode nextCode)"

subsection \<open>Unit operations and the model list\<close>

record unit_op =
  unitOperationId :: nat
  numComponents :: nat
  numDofs :: nat
  hasInlet :: bool
  hasOutlet :: bool
  canAccumulate :: bool
  localInletComponentIndex :: nat
  localInletComponentStride :: nat
  localOutletComponentIndex :: nat
  localOutletComponentStride :: nat

text \<open>\<^verbatim>\<open>indexOfUnitOp\<close>: the array index of the first model with the given id, or the
  size of the array.\<close>

fun indexOfUnitOpFrom :: "nat \<Rightarrow> unit_op list \<Rightarrow> nat \<Rightarrow> nat" where
  "indexOfUnitOpFrom i [] unitOpIdx = i"
| "indexOfUnitOpFrom i (m # models) unitOpIdx =
     (if unitOperationId m = unitOpIdx then i else indexOfUnitOpFrom (Suc i) models unitOpIdx)"

definition indexOfUnitOp :: "unit_op list \<Rightarrow> nat \<Rightarrow> nat" where
  "indexOfUnitOp models unitOpIdx = indexOfUnitOpFrom 0 models unitOpIdx"

text \<open>\<^verbatim>\<open>ModelSystem::getModel\<close> and \<^verbatim>\<open>ModelSystem::getUnitOperationModel\<close>; the null
  pointer is \<^const>\<open>None\<close>.\<close>

definition getModel :: "unit_op list \<Rightarrow> nat \<Rightarrow> unit_op option" where
  "getModel models index = (if index < length models then Some (models ! index) else None)"

fun getUnitOperationModel :: "unit_op list \<Rightarrow> nat \<Rightarrow> unit_op option" where
  "getUnitOperationModel [] unitOpIdx = None"
| "getUnitOperationModel (m # models) unitOpIdx =
     (if unitOperationId m = unitOpIdx then Some m else getUnitOperationModel models unitOpIdx)"

subsection \<open>Configuration errors\<close>

text \<open>
  Every constructor but the last stands for one \<^verbatim>\<open>throw InvalidParameterException(...)\<close>
  of the source and carries the numbers its message prints (switch, row, unit). The
  last one marks the places where the source has no defined behaviour (a read of
  element 0 of an empty vector, a remainder by zero).
\<close>

datatype error =
    SectionNotMonotonic nat
  | ConnectionsNotFiveColumns
  | FirstSectionNotZero
  | SourceIdNegative nat nat
  | DestinationIdNegative nat nat
  | SourceIdNotFound nat nat
  | DestinationIdNotFound nat nat
  | SourceHasNoOutlet nat nat nat
  | DestinationHasNoInlet nat nat nat
  | SourceComponentExceeds nat nat nat
  | DestinationComponentExceeds nat nat nat
  | OnlyOneSideAllComponents nat nat nat nat
  | NumComponentsNotEqual nat nat nat nat
  | FlowBalanceNotClosed nat nat real
  | UndefinedBehaviour

subsection \<open>Checking a connection list\<close>

text \<open>
  \<^verbatim>\<open>static_cast<int>\<close> of a \<^verbatim>\<open>double\<close> truncates towards zero. The conversion is defined
  when the truncated value is an \<^verbatim>\<open>int\<close> (32 bits). Otherwise the language leaves the
  behaviour open; the function then returns \<^verbatim>\<open>INT_MIN\<close>, which is what the conversion
  instruction of x86-64 delivers, and the statements about single rows below are made for
  entries inside the range.
\<close>

definition castDefined :: "real \<Rightarrow> bool" where
  "castDefined x = (- 2147483649 < x \<and> x < 2147483648)"

definition static_cast_int :: "real \<Rightarrow> int" where
  "static_cast_int x =
     (if castDefined x then (if 0 \<le> x then \<lfloor>x\<rfloor> else \<lceil>x\<rceil>) else - 2147483648)"

text \<open>\<^verbatim>\<open>isTerminal\<close>: no row of the 4-column connection list has the unit as its source.\<close>

definition isTerminal :: "int list \<Rightarrow> nat \<Rightarrow> int \<Rightarrow> bool" where
  "isTerminal conn nRows unitOpIdx = list_all (\<lambda>i. conn ! (4 * i) \<noteq> unitOpIdx) [0..<nRows]"

text \<open>
  The local variables of \<^verbatim>\<open>ModelSystem::checkConnectionList\<close> that outlive one pass of
  its loops: the two balances and the two output arrays, which the caller allocates
  (4 entries and 1 entry per row) and the function fills by index.
\<close>

record check_state =
  totalInflow :: "real list"
  totalOutflow :: "real list"
  connOnly :: "int list"
  flowRates :: "real list"

text \<open>
  The search for an earlier row of the same connection. As in the source, it compares
  the entries of the 5-column input \<^verbatim>\<open>conn\<close>, which are unit operation ids, with
  \<^verbatim>\<open>uoSource\<close> and \<^verbatim>\<open>uoDest\<close>, which hold local indices at this point.
\<close>

definition findPrevious :: "real list \<Rightarrow> nat \<Rightarrow> nat \<Rightarrow> nat \<Rightarrow> nat option" where
  "findPrevious conn i uoSource uoDest =
     find (\<lambda>j. conn ! (5 * j) = real uoSource \<and> real uoDest = conn ! (5 * j + 1)) [0..<i]"

text \<open>One pass of the first loop of \<^verbatim>\<open>checkConnectionList\<close>, for row \<open>i\<close>.\<close>

definition checkRow ::
  "rounding \<Rightarrow> unit_op list \<Rightarrow> real list \<Rightarrow> nat \<Rightarrow> nat \<Rightarrow> check_state
     \<Rightarrow> error + check_state" where
  "checkRow rnd models conn idxSwitch i st =
     (let uoSourceId = static_cast_int (conn ! (5 * i));
          uoDestId = static_cast_int (conn ! (5 * i + 1));
          compSource = static_cast_int (conn ! (5 * i + 2));
          compDest = static_cast_int (conn ! (5 * i + 3));
          fr = conn ! (5 * i + 4)
      in if uoSourceId < 0 then Inl (SourceIdNegative idxSwitch i)
         else if uoDestId < 0 then Inl (DestinationIdNegative idxSwitch i)
         else
           let uoSource = indexOfUnitOp models (nat uoSourceId);
               uoDest = indexOfUnitOp models (nat uoDestId)
           in if length models \<le> uoSource then Inl (SourceIdNotFound idxSwitch i)
              else if length models \<le> uoDest then Inl (DestinationIdNotFound idxSwitch i)
              else if \<not> hasOutlet (models ! uoSource)
                then Inl (SourceHasNoOutlet idxSwitch i (unitOperationId (models ! uoSource)))
              else if \<not> hasInlet (models ! uoDest)
                then Inl (DestinationHasNoInlet idxSwitch i (unitOperationId (models ! uoDest)))
              else if 0 \<le> compSource \<and> numComponents (models ! uoSource) \<le> nat compSource
                then Inl (SourceComponentExceeds idxSwitch i (numComponents (models ! uoSource)))
              else if 0 \<le> compDest \<and> numComponents (models ! uoDest) \<le> nat compDest
                then Inl (DestinationComponentExceeds idxSwitch i (numComponents (models ! uoDest)))
              else if (compSource < 0 \<and> 0 \<le> compDest) \<or> (0 \<le> compSource \<and> compDest < 0)
                then Inl (OnlyOneSideAllComponents idxSwitch i
                            (unitOperationId (models ! uoSource)) (unitOperationId (models ! uoDest)))
              else if compSource < 0 \<and> compDest < 0
                      \<and> numComponents (models ! uoSource) \<noteq> numComponents (models ! uoDest)
                then Inl (NumComponentsNotEqual idxSwitch i
                            (unitOperationId (models ! uoSource)) (unitOperationId (models ! uoDest)))
              else
                let prev = findPrevious conn i uoSource uoDest;
                    fr' = (case prev of Some j \<Rightarrow> conn ! (5 * j + 4) | None \<Rightarrow> fr)
                in Inr (st\<lparr>
                     connOnly := (connOnly st)
                        [4 * i := int uoSource, 4 * i + 1 := int uoDest,
                         4 * i + 2 := compSource, 4 * i + 3 := compDest],
                     totalInflow :=
                       (if prev = None
                        then (totalInflow st)[uoDest := rnd (totalInflow st ! uoDest + fr')]
                        else totalInflow st),
                     totalOutflow :=
                       (if prev = None
                        then (totalOutflow st)[uoSource := rnd (totalOutflow st ! uoSource + fr')]
                        else totalOutflow st),
                     flowRates := (flowRates st)[i := fr']\<rparr>))"

fun checkRows ::
  "rounding \<Rightarrow> unit_op list \<Rightarrow> real list \<Rightarrow> nat \<Rightarrow> nat list \<Rightarrow> check_state
     \<Rightarrow> error + check_state" where
  "checkRows rnd models conn idxSwitch [] st = Inr st"
| "checkRows rnd models conn idxSwitch (i # rows) st =
     (case checkRow rnd models conn idxSwitch i st of
        Inl e \<Rightarrow> Inl e
      | Inr st' \<Rightarrow> checkRows rnd models conn idxSwitch rows st')"

text \<open>One pass of the second loop (the flow rate balance), for unit \<open>i\<close>: \<^const>\<open>None\<close>
  where the source continues with the next unit. The literal \<^verbatim>\<open>1e-15\<close> is the double next
  to \<open>10\<^sup>-\<^sup>1\<^sup>5\<close>; taking the absolute value of a double is exact.\<close>

definition checkBalanceOf ::
  "rounding \<Rightarrow> unit_op list \<Rightarrow> nat \<Rightarrow> check_state \<Rightarrow> nat \<Rightarrow> error option" where
  "checkBalanceOf rnd models idxSwitch st i =
     (if 0 \<le> totalInflow st ! i \<and> totalOutflow st ! i = 0
          \<and> hasInlet (models ! i) \<and> \<not> hasOutlet (models ! i) then None
      else if totalInflow st ! i = 0 \<and> 0 \<le> totalOutflow st ! i
          \<and> \<not> hasInlet (models ! i) \<and> hasOutlet (models ! i) then None
      else if 0 \<le> totalOutflow st ! i
          \<and> isTerminal (connOnly st) (length (connOnly st) div 4) (int i) then None
      else
        let diff = \<bar>rnd (totalInflow st ! i - totalOutflow st ! i)\<bar>
        in if (rnd (1 / 10 ^ 15) \<le> diff
               \<or> rnd (rnd (1 / 10 ^ 15) * \<bar>totalOutflow st ! i\<bar>) \<le> diff)
              \<and> \<not> canAccumulate (models ! i)
           then Some (FlowBalanceNotClosed idxSwitch i diff)
           else None)"

fun checkBalance ::
  "rounding \<Rightarrow> unit_op list \<Rightarrow> nat \<Rightarrow> check_state \<Rightarrow> nat list \<Rightarrow> error option" where
  "checkBalance rnd models idxSwitch st [] = None"
| "checkBalance rnd models idxSwitch st (i # units) =
     (case checkBalanceOf rnd models idxSwitch st i of
        Some e \<Rightarrow> Some e
      | None \<Rightarrow> checkBalance rnd models idxSwitch st units)"

text \<open>
  \<^verbatim>\<open>ModelSystem::checkConnectionList\<close>. The result holds the two output arrays
  \<^verbatim>\<open>connOnly\<close> and \<^verbatim>\<open>flowRates\<close>.
\<close>

definition checkConnectionList ::
  "rounding \<Rightarrow> unit_op list \<Rightarrow> real list \<Rightarrow> int list \<Rightarrow> real list \<Rightarrow> nat
     \<Rightarrow> error + int list \<times> real list" where
  "checkConnectionList rnd models conn connOnly0 flowRates0 idxSwitch =
     (case checkRows rnd models conn idxSwitch [0..<length conn div 5]
             \<lparr>totalInflow = replicate (length models) 0,
              totalOutflow = replicate (length models) 0,
              connOnly = connOnly0, flowRates = flowRates0\<rparr> of
        Inl e \<Rightarrow> Inl e
      | Inr st \<Rightarrow>
          (case checkBalance rnd models idxSwitch st [0..<length models] of
             Some e \<Rightarrow> Inl e
           | None \<Rightarrow> Inr (connOnly st, flowRates st)))"

subsection \<open>Reading the valve switches\<close>

text \<open>
  The group \<^verbatim>\<open>connections\<close> of the parameter provider: one scope per switch with its
  \<^verbatim>\<open>SECTION\<close> and its \<^verbatim>\<open>CONNECTIONS\<close> array; \<^verbatim>\<open>NSWITCHES\<close> is the number of scopes.
\<close>

record switch_scope =
  SECTION :: int
  CONNECTIONS :: "real list"

text \<open>
  Modelled from the spec: \<^verbatim>\<open>makeParamId\<close> and the type \<^verbatim>\<open>ParameterId\<close> are declared
  outside the sources at hand. The specification keys a flow rate parameter by the pair
  of units and the switch index, so
  \<^verbatim>\<open>makeParamId(flowHash, UnitOpIndep, CompIndep, source, destination, switch)\<close> is a
  free constructor of the three arguments that vary.
\<close>

datatype param_id = CONNECTION int int nat

text \<open>
  The members that \<^verbatim>\<open>configureSwitches\<close> writes. \<^verbatim>\<open>_connections\<close> and \<^verbatim>\<open>_flowRates\<close>
  are sliced vectors with one slice per switch. \<^verbatim>\<open>_parameters\<close> maps a parameter id to
  a pointer to an element of \<^verbatim>\<open>_flowRates\<close>, here the pair of its slice and its position
  in the slice; it is kept in the order of its first assignments. The members are
  declared in the header of the class, which is not at hand; the elements of
  \<^verbatim>\<open>_switchSectionIndex\<close> are taken to be of the type \<^verbatim>\<open>int\<close> that \<^verbatim>\<open>getInt\<close> returns.
\<close>

record switch_state =
  switchSectionIndex :: "int list"
  connections :: "int list list"
  flowRateSlices :: "real list list"
  parameters :: "(param_id \<times> nat \<times> nat) list"

text \<open>The inner loop over \<open>j = 1, ..., fr.size() - 1\<close> that registers flow rate
  parameters: only the first row of a pair of units is registered.\<close>

fun registerFlowRates ::
  "int list \<Rightarrow> nat \<Rightarrow> nat list \<Rightarrow> (param_id \<times> nat \<times> nat) list \<Rightarrow> (param_id \<times> nat \<times> nat) list" where
  "registerFlowRates conn i [] params = params"
| "registerFlowRates conn i (j # rows) params =
     registerFlowRates conn i rows
       (if list_ex (\<lambda>k. conn ! (4 * k) = conn ! (4 * j) \<and> conn ! (4 * k + 1) = conn ! (4 * j + 1)) [0..<j]
        then params
        else AList.update (CONNECTION (conn ! (4 * j)) (conn ! (4 * j + 1)) i) (i, j) params)"

fun configureSwitchLoop ::
  "rounding \<Rightarrow> unit_op list \<Rightarrow> nat \<Rightarrow> switch_scope list \<Rightarrow> switch_state
     \<Rightarrow> error + switch_state" where
  "configureSwitchLoop rnd models i [] st = Inr st"
| "configureSwitchLoop rnd models i (scope # scopes) st =
     (let sections = switchSectionIndex st @ [SECTION scope]
      in if 0 < i \<and> last sections \<le> sections ! (length sections - 2)
         then Inl (SectionNotMonotonic i)
         else
           let connFlow = CONNECTIONS scope
           in if length connFlow mod 5 \<noteq> 0 then Inl ConnectionsNotFiveColumns
              else
                (case checkConnectionList rnd models connFlow
                        (replicate (length connFlow div 5 * 4) 0)
                        (replicate (length connFlow div 5) 0) i of
                   Inl e \<Rightarrow> Inl e
                 | Inr (conn, fr) \<Rightarrow>
                     configureSwitchLoop rnd models (Suc i) scopes
                       (st\<lparr>switchSectionIndex := sections,
                           connections := connections st @ [conn],
                           flowRateSlices := flowRateSlices st @ [fr],
                           parameters :=
                             (if 0 < length fr
                              then registerFlowRates conn i [1..<length fr]
                                     (AList.update (CONNECTION (conn ! 0) (conn ! 1) i) (i, 0)
                                        (parameters st))
                              else parameters st)\<rparr>)))"

text \<open>\<^verbatim>\<open>ModelSystem::configureSwitches\<close>; its callers clear \<^verbatim>\<open>_parameters\<close> first.\<close>

definition configureSwitches ::
  "rounding \<Rightarrow> unit_op list \<Rightarrow> switch_scope list \<Rightarrow> switch_state \<Rightarrow> error + switch_state" where
  "configureSwitches rnd models scopes st =
     (case configureSwitchLoop rnd models 0 scopes
             (st\<lparr>switchSectionIndex := [], connections := [], flowRateSlices := []\<rparr>) of
        Inl e \<Rightarrow> Inl e
      | Inr st' \<Rightarrow>
          if switchSectionIndex st' = [] then Inl UndefinedBehaviour
          else if switchSectionIndex st' ! 0 \<noteq> 0 then Inl FirstSectionNotZero
          else Inr st')"

subsection \<open>Units for concrete networks\<close>

text \<open>A unit operation with the given id, number of components and ports, 10 degrees of
  freedom, inlet and outlet values stored at the front of its block with stride 1, and
  no permission to accumulate.\<close>

definition unitOp :: "nat \<Rightarrow> nat \<Rightarrow> bool \<Rightarrow> bool \<Rightarrow> unit_op" where
  "unitOp uid nComp inlet outlet =
     \<lparr>unitOperationId = uid, numComponents = nComp, numDofs = 10,
      hasInlet = inlet, hasOutlet = outlet, canAccumulate = False,
      localInletComponentIndex = 0, localInletComponentStride = 1,
      localOutletComponentIndex = 0, localOutletComponentStride = 1\<rparr>"

subsection \<open>The conditions under which a connection row is refused\<close>

text \<open>The disjunction of the conditions of the \<^verbatim>\<open>throw\<close> statements in the first loop of
  \<^verbatim>\<open>checkConnectionList\<close>, in terms of the four integers read from the row.\<close>

definition rowRejected :: "unit_op list \<Rightarrow> int \<Rightarrow> int \<Rightarrow> int \<Rightarrow> int \<Rightarrow> bool" where
  "rowRejected models sId dId cs cd =
     (sId < 0 \<or> dId < 0
      \<or> length models \<le> indexOfUnitOp models (nat sId)
      \<or> length models \<le> indexOfUnitOp models (nat dId)
      \<or> \<not> hasOutlet (models ! indexOfUnitOp models (nat sId))
      \<or> \<not> hasInlet (models ! indexOfUnitOp models (nat dId))
      \<or> (0 \<le> cs \<and> numComponents (models ! indexOfUnitOp models (nat sId)) \<le> nat cs)
      \<or> (0 \<le> cd \<and> numComponents (models ! indexOfUnitOp models (nat dId)) \<le> nat cd)
      \<or> (cs < 0 \<and> 0 \<le> cd) \<or> (0 \<le> cs \<and> cd < 0)
      \<or> (cs < 0 \<and> cd < 0
          \<and> numComponents (models ! indexOfUnitOp models (nat sId))
              \<noteq> numComponents (models ! indexOfUnitOp models (nat dId))))"

text \<open>
  The conditions in the words of the specification: an id is negative or unknown, the
  source has no outlet, the destination has no inlet, a component index that is not the
  wildcard is not below the number of components of its unit, exactly one side is the
  wildcard, or both are and the numbers of components differ. What counts as the
  wildcard is an argument.
\<close>

definition rowErrorWith ::
  "(int \<Rightarrow> bool) \<Rightarrow> unit_op list \<Rightarrow> int \<Rightarrow> int \<Rightarrow> int \<Rightarrow> int \<Rightarrow> bool" where
  "rowErrorWith wildcard models uoSourceId uoDestId compSource compDest =
     (uoSourceId < 0 \<or> uoDestId < 0
      \<or> (case getUnitOperationModel models (nat uoSourceId) of
            None \<Rightarrow> True
          | Some src \<Rightarrow>
              (case getUnitOperationModel models (nat uoDestId) of
                 None \<Rightarrow> True
               | Some dst \<Rightarrow>
                   \<not> hasOutlet src \<or> \<not> hasInlet dst
                   \<or> (\<not> wildcard compSource \<and> int (numComponents src) \<le> compSource)
                   \<or> (\<not> wildcard compDest \<and> int (numComponents dst) \<le> compDest)
                   \<or> (wildcard compSource \<noteq> wildcard compDest)
                   \<or> (wildcard compSource \<and> wildcard compDest
                       \<and> numComponents src \<noteq> numComponents dst))))"

text \<open>The wildcard of the specification and of the input format is \<open>-1\<close>.\<close>

definition isWildcard :: "int \<Rightarrow> bool" where
  "isWildcard compIdx = (compIdx = - 1)"

definition claimedRowError :: "unit_op list \<Rightarrow> int \<Rightarrow> int \<Rightarrow> int \<Rightarrow> int \<Rightarrow> bool" where
  "claimedRowError models uoSourceId uoDestId compSource compDest =
     rowErrorWith isWildcard models uoSourceId uoDestId compSource compDest"

text \<open>The same conditions when every negative component index counts as the wildcard.\<close>

definition isNegative :: "int \<Rightarrow> bool" where
  "isNegative compIdx = (compIdx < 0)"

definition negativeWildcardRowError :: "unit_op list \<Rightarrow> int \<Rightarrow> int \<Rightarrow> int \<Rightarrow> int \<Rightarrow> bool" where
  "negativeWildcardRowError models uoSourceId uoDestId compSource compDest =
     rowErrorWith isNegative models uoSourceId uoDestId compSource compDest"

text \<open>Row \<open>i\<close> lies inside the connection list and its four indices convert to
  \<^verbatim>\<open>int\<close> with a defined result.\<close>

definition rowDefined :: "real list \<Rightarrow> nat \<Rightarrow> bool" where
  "rowDefined conn i =
     (i < length conn div 5 \<and> castDefined (conn ! (5 * i)) \<and> castDefined (conn ! (5 * i + 1))
      \<and> castDefined (conn ! (5 * i + 2)) \<and> castDefined (conn ! (5 * i + 3)))"

text \<open>The members before any switch has been read.\<close>

definition noSwitches :: switch_state where
  "noSwitches = \<lparr>switchSectionIndex = [], connections = [], flowRateSlices = [], parameters = []\<rparr>"

subsection \<open>The layout of the global state vector\<close>

text \<open>
  The members that \<^verbatim>\<open>rebuildInternalDataStructures\<close> writes. The coupling index map is
  a \<^verbatim>\<open>std::map\<close> from pairs (unit index, component) to coupling indices; it is kept as
  the list of its entries in the order of insertion and read with \<^const>\<open>map_of\<close>.
\<close>

record layout =
  dofOffset :: "nat list"
  dofs :: "nat list"
  couplingIdxMap :: "((nat \<times> nat) \<times> nat) list"
  errorIndicator :: "int list"

text \<open>\<^verbatim>\<open>std::map::insert\<close> leaves the map as it is when the key is present.\<close>

definition map_insert :: "'k \<Rightarrow> 'v \<Rightarrow> ('k \<times> 'v) list \<Rightarrow> ('k \<times> 'v) list" where
  "map_insert k v m = (if k \<in> fst ` set m then m else m @ [(k, v)])"

text \<open>
  Modelled from the spec: \<^verbatim>\<open>numCouplingDOF()\<close> is defined in the header of the class,
  which is not among the sources. The specification makes the coupling block the range
  of the coupling index map, so the number of coupling degrees of freedom is taken to be
  the number of entries of the map.
\<close>

definition numCouplingDOF :: "((nat \<times> nat) \<times> nat) list \<Rightarrow> nat" where
  "numCouplingDOF m = length m"

text \<open>The first loop: offsets and sizes of the blocks of the units. The running sum
  \<^verbatim>\<open>totalDof\<close> is an \<^verbatim>\<open>unsigned int\<close> and wraps at \<open>2\<^sup>3\<^sup>2\<close>.\<close>

fun dofLoop :: "unit_op list \<Rightarrow> nat \<Rightarrow> nat list \<Rightarrow> nat list \<Rightarrow> nat \<times> nat list \<times> nat list" where
  "dofLoop [] totalDof offsets sizes = (totalDof, offsets, sizes)"
| "dofLoop (m # models) totalDof offsets sizes =
     dofLoop models ((totalDof + numDofs m) mod 2 ^ 32) (offsets @ [totalDof])
       (sizes @ [numDofs m])"

text \<open>The two nested loops that fill the coupling index map, with the running
  \<^verbatim>\<open>counter\<close>.\<close>

fun componentLoop ::
  "nat \<Rightarrow> nat list \<Rightarrow> ((nat \<times> nat) \<times> nat) list \<times> nat \<Rightarrow> ((nat \<times> nat) \<times> nat) list \<times> nat" where
  "componentLoop i [] (m, counter) = (m, counter)"
| "componentLoop i (c # comps) (m, counter) =
     componentLoop i comps (map_insert (i, c) counter m, Suc counter)"

fun couplingLoop ::
  "unit_op list \<Rightarrow> nat list \<Rightarrow> ((nat \<times> nat) \<times> nat) list \<times> nat \<Rightarrow> ((nat \<times> nat) \<times> nat) list \<times> nat" where
  "couplingLoop models [] mc = mc"
| "couplingLoop models (i # units) mc =
     couplingLoop models units
       (if hasInlet (models ! i) then componentLoop i [0..<numComponents (models ! i)] mc else mc)"

text \<open>\<^verbatim>\<open>ModelSystem::rebuildInternalDataStructures\<close>; \<^verbatim>\<open>_errorIndicator.resize(n, 0)\<close> keeps
  the entries it has and pads with 0.\<close>

definition rebuildInternalDataStructures :: "unit_op list \<Rightarrow> int list \<Rightarrow> layout" where
  "rebuildInternalDataStructures models errorIndicator0 =
     (case dofLoop models 0 [] [] of
        (totalDof, offsets, sizes) \<Rightarrow>
          (case couplingLoop models [0..<length models] ([], 0) of
             (m, counter) \<Rightarrow>
               \<lparr>dofOffset = offsets @ [totalDof],
                dofs = sizes @ [numCouplingDOF m],
                couplingIdxMap = m,
                errorIndicator = take (length models) errorIndicator0
                   @ replicate (length models - length errorIndicator0) 0\<rparr>))"

text \<open>\<^verbatim>\<open>ModelSystem::numDofs\<close>: the offset of the coupling block plus its size, a sum of
  two \<^verbatim>\<open>unsigned int\<close>.\<close>

definition systemNumDofs :: "layout \<Rightarrow> nat" where
  "systemNumDofs l = (last (dofOffset l) + numCouplingDOF (couplingIdxMap l)) mod 2 ^ 32"

text \<open>The pairs (unit index, component) of the units with an inlet, in the order of
  the units and of their components: the keys that the coupling index map should have.\<close>

definition inletComponents :: "unit_op list \<Rightarrow> nat list \<Rightarrow> (nat \<times> nat) list" where
  "inletComponents models units =
     concat (map (\<lambda>i. if hasInlet (models ! i)
                       then map (Pair i) [0..<numComponents (models ! i)] else []) units)"

subsection \<open>Applying initial conditions\<close>

text \<open>
  The two optional arrays that \<^verbatim>\<open>applyInitialCondition\<close> reads from the parameter
  provider; \<^const>\<open>None\<close> when \<^verbatim>\<open>exists\<close> answers false.
\<close>

record init_provider =
  INIT_STATE_Y :: "real list option"
  INIT_STATE_YDOT :: "real list option"

text \<open>The state vectors are passed as pointers: memory read and written by index.\<close>

type_synonym vec = "nat \<Rightarrow> real"

text \<open>\<^verbatim>\<open>std::copy(src.data(), src.data() + n, dest)\<close>.\<close>

definition copyInto :: "real list \<Rightarrow> nat \<Rightarrow> vec \<Rightarrow> vec" where
  "copyInto src n dest = (\<lambda>k. if k < n then src ! k else dest k)"

text \<open>The vectors after the call, and the unit operations to which the call delegated,
  by their ids (the scopes \<^verbatim>\<open>unit_XXX\<close> it pushed), in the order of the calls.\<close>

record init_result =
  stateY :: vec
  stateYdot :: vec
  delegated :: "nat list"

text \<open>
  The loop over the models. What a unit does with the provider and its slices of the
  two vectors is its own business: \<open>unitInit\<close> stands for
  \<^verbatim>\<open>m->applyInitialCondition(paramProvider, vecStateY + offset, vecStateYdot + offset)\<close>.
\<close>

fun applyInitialConditionLoop ::
  "(unit_op \<Rightarrow> nat \<Rightarrow> vec \<times> vec \<Rightarrow> vec \<times> vec) \<Rightarrow> unit_op list \<Rightarrow> nat list \<Rightarrow> nat list
     \<Rightarrow> init_result \<Rightarrow> init_result" where
  "applyInitialConditionLoop unitInit models offsets [] r = r"
| "applyInitialConditionLoop unitInit models offsets (i # units) r =
     (case unitInit (models ! i) (offsets ! i) (stateY r, stateYdot r) of
        (y, yDot) \<Rightarrow>
          applyInitialConditionLoop unitInit models offsets units
            \<lparr>stateY = y, stateYdot = yDot,
             delegated = delegated r @ [unitOperationId (models ! i)]\<rparr>)"

text \<open>\<^verbatim>\<open>ModelSystem::applyInitialCondition(IParameterProvider&, double*, double*)\<close>.\<close>

definition applyInitialCondition ::
  "(unit_op \<Rightarrow> nat \<Rightarrow> vec \<times> vec \<Rightarrow> vec \<times> vec) \<Rightarrow> unit_op list \<Rightarrow> layout \<Rightarrow> init_provider
     \<Rightarrow> vec \<Rightarrow> vec \<Rightarrow> init_result" where
  "applyInitialCondition unitInit models l paramProvider vecStateY vecStateYdot =
     (case (case INIT_STATE_Y paramProvider of
              Some initState \<Rightarrow>
                if systemNumDofs l \<le> length initState
                then (copyInto initState (systemNumDofs l) vecStateY, True)
                else (vecStateY, False)
            | None \<Rightarrow> (vecStateY, False)) of
        (y, skipModels) \<Rightarrow>
          let yDot = (case INIT_STATE_YDOT paramProvider of
                        Some initState \<Rightarrow>
                          if systemNumDofs l \<le> length initState
                          then copyInto initState (systemNumDofs l) vecStateYdot
                          else vecStateYdot
                      | None \<Rightarrow> vecStateYdot)
          in if skipModels then \<lparr>stateY = y, stateYdot = yDot, delegated = []\<rparr>
             else applyInitialConditionLoop unitInit models (dofOffset l) [0..<length models]
                    \<lparr>stateY = y, stateYdot = yDot, delegated = []\<rparr>)"

text \<open>The derivative vector after the part of the call that reads
  \<^verbatim>\<open>INIT_STATE_YDOT\<close>, in the words of the claim: overwritten in its first
  \<open>n\<close> entries when the array is present with at least \<open>n\<close> entries.\<close>

definition yDotOverride :: "init_provider \<Rightarrow> nat \<Rightarrow> vec \<Rightarrow> vec" where
  "yDotOverride paramProvider n vecStateYdot =
     (\<lambda>k. case INIT_STATE_YDOT paramProvider of
             Some initState \<Rightarrow>
               if n \<le> length initState \<and> k < n then initState ! k else vecStateYdot k
           | None \<Rightarrow> vecStateYdot k)"

text \<open>Two units without inlets, with two and one degrees of freedom, and their layout:
  two blocks and an empty coupling block.\<close>

definition twoUnits :: "unit_op list" where
  "twoUnits = [(unitOp 3 2 False True)\<lparr>numDofs := 2\<rparr>, (unitOp 7 2 False True)\<lparr>numDofs := 1\<rparr>]"

definition twoBlocks :: layout where
  "twoBlocks = \<lparr>dofOffset = [0, 2, 3], dofs = [2, 1, 0], couplingIdxMap = [],
     errorIndicator = [0, 0]\<rparr>"

text \<open>A unit operation that writes its id into the first entry of its slice of the state
  vector and adds 1 to the first entry of its slice of the derivative vector.\<close>

definition stampUnit :: "unit_op \<Rightarrow> nat \<Rightarrow> vec \<times> vec \<Rightarrow> vec \<times> vec" where
  "stampUnit m offset v =
     ((fst v)(offset := real (unitOperationId m)), (snd v)(offset := snd v offset + 1))"

subsection \<open>Section transitions\<close>





section \<open>Properties\<close>

subsection \<open>Status fusion\<close>

lemma totalErrorLoop_nonneg:
  "\<forall>e\<in>set err. 0 \<le> e \<Longrightarrow> totalErrorLoop t err = Max (set (t # err))"
proof (induction err arbitrary: t)
  case Nil
  then show ?case by simp
next
  case (Cons e err)
  then have "totalErrorLoop t (e # err) = Max (set (max t e # err))" by simp
  also have "\<dots> = Max (insert t (insert e (set err)))"
    by (cases "set err = {}") (simp_all add: max.assoc)
  finally show ?case by simp
qed

lemma totalErrorLoop_find:
  "totalErrorLoop t err =
     (case find (\<lambda>e. e < 0) err of Some e \<Rightarrow> e
      | None \<Rightarrow> Max (set (t # err)))"
proof (induction err arbitrary: t)
  case Nil
  then show ?case by simp
next
  case (Cons e err)
  show ?case
  proof (cases "e < 0")
    case True
    then show ?thesis by simp
  next
    case False
    have "Max (set (max t e # err)) = Max (insert t (insert e (set err)))"
      by (cases "set err = {}") (simp_all add: max.assoc)
    with False Cons show ?thesis by (simp split: option.splits)
  qed
qed

lemma totalErrorLoop_neg_iff:
  "0 \<le> t \<Longrightarrow> totalErrorLoop t err < 0 \<longleftrightarrow> (\<exists>e\<in>set err. e < 0)"
  by (induction err arbitrary: t) auto

lemma Min_insert_nonneg:
  fixes a :: int
  assumes "finite S" "x \<in> S" "x < 0" "0 \<le> a"
  shows "Min (insert a S) = Min S"
proof -
  from assms have ne: "S \<noteq> {}" by auto
  from assms have "Min S \<le> x" by simp
  with assms have le: "Min S \<le> a" by linarith
  from assms ne have "Min (insert a S) = min a (Min S)" by (intro Min_insert) auto
  with le show ?thesis by (simp only: min.absorb2)
qed

lemma foldl_updateErrorIndicator:
  "foldl updateErrorIndicator c err =
     (if \<exists>e\<in>set (c # err). e < 0 then Min (set (c # err)) else Max (set (c # err)))"
proof (induction err arbitrary: c)
  case Nil
  then show ?case by simp
next
  case (Cons e err)
  let ?u = "updateErrorIndicator c e"
  have neg: "?u < 0 \<longleftrightarrow> c < 0 \<or> e < 0"
    by (auto simp: updateErrorIndicator_def)
  have ex: "(\<exists>x\<in>set (?u # err). x < 0) \<longleftrightarrow> (\<exists>x\<in>set (c # e # err). x < 0)"
    using neg by auto
  show ?case
  proof (cases "\<exists>x\<in>set (c # e # err). x < 0")
    case True
    have "Min (set (?u # err)) = Min (set (c # e # err))"
    proof (cases "c < 0 \<or> e < 0")
      case True
      then have "?u = min c e" by (simp add: updateErrorIndicator_def)
      then show ?thesis
        by (cases "set err = {}") (simp_all add: min.assoc)
    next
      case False
      with True obtain x where x: "x \<in> set err" "x < 0" by auto
      from False have u: "0 \<le> ?u" "0 \<le> c" "0 \<le> e"
        by (auto simp: updateErrorIndicator_def)
      have "Min (insert ?u (set err)) = Min (set err)"
        using x u(1) by (intro Min_insert_nonneg [of _ x]) auto
      moreover have "Min (insert e (set err)) = Min (set err)"
        using x u(3) by (intro Min_insert_nonneg [of _ x]) auto
      moreover have "Min (insert c (insert e (set err))) = Min (insert e (set err))"
        using x u(2) by (intro Min_insert_nonneg [of _ x]) auto
      ultimately show ?thesis by simp
    qed
    with True ex Cons show ?thesis by simp
  next
    case False
    then have "?u = max c e" by (auto simp: updateErrorIndicator_def)
    then have "Max (set (?u # err)) = Max (set (c # e # err))"
      by (cases "set err = {}") (simp_all add: max.assoc)
    with False ex Cons show ?thesis by simp
  qed
qed

lemma foldl_updateErrorIndicator_perm:
  "mset err = mset err' \<Longrightarrow>
     foldl updateErrorIndicator c err = foldl updateErrorIndicator c err'"
proof -
  assume "mset err = mset err'"
  then have "set err = set err'" by (rule mset_eq_setD)
  then show ?thesis by (simp add: foldl_updateErrorIndicator)
qed

text \<open>
  C1, as stated: fusing a list of codes yields the most negative code when some code is
  negative, and the result does not depend on the order of the list. The list fusion
  returns the first negative code it meets instead: on \<open>[-1, -2]\<close> it answers \<open>-1\<close>,
  which is not the most negative code, and on the permutation \<open>[-2, -1]\<close> it answers
  \<open>-2\<close>.
\<close>

theorem C1_list_fusion_counterexample:
  "totalErrorIndicatorFromLocal [-1, -2] = -1
   \<and> totalErrorIndicatorFromLocal [-1, -2] \<noteq> Min (set [-1, -2])
   \<and> mset [-1, -2 :: int] = mset [-2, -1]
   \<and> totalErrorIndicatorFromLocal [-1, -2] \<noteq> totalErrorIndicatorFromLocal [-2, -1]"
  by (simp add: totalErrorIndicatorFromLocal_def)

text \<open>
  C1, amended: the list fusion yields the first negative code of the list if there is
  one, and otherwise the maximum of the codes (0 for the empty list); its result is
  negative in every order exactly when some code is negative, and it is the same for
  every permutation of a list without negative codes. Repeated pairwise fusion, started
  from any code \<open>c\<close>, yields the most negative of all codes if one of them is negative
  and their maximum otherwise, and is the same for every permutation of the list.
\<close>

theorem C1_status_fusion:
  "totalErrorIndicatorFromLocal err =
     (case find (\<lambda>e. e < 0) err of Some e \<Rightarrow> e | None \<Rightarrow> Max (set (0 # err)))
   \<and> (totalErrorIndicatorFromLocal err < 0 \<longleftrightarrow> (\<exists>e\<in>set err. e < 0))
   \<and> (mset err = mset err' \<longrightarrow> (\<forall>e\<in>set err. 0 \<le> e) \<longrightarrow>
        totalErrorIndicatorFromLocal err = totalErrorIndicatorFromLocal err')
   \<and> foldl updateErrorIndicator c err =
       (if \<exists>e\<in>set (c # err). e < 0 then Min (set (c # err)) else Max (set (c # err)))
   \<and> (mset err = mset err' \<longrightarrow>
        foldl updateErrorIndicator c err = foldl updateErrorIndicator c err')"
proof -
  have a: "totalErrorIndicatorFromLocal err =
     (case find (\<lambda>e. e < 0) err of Some e \<Rightarrow> e | None \<Rightarrow> Max (set (0 # err)))"
    unfolding totalErrorIndicatorFromLocal_def by (rule totalErrorLoop_find)
  have b: "totalErrorIndicatorFromLocal err < 0 \<longleftrightarrow> (\<exists>e\<in>set err. e < 0)"
    unfolding totalErrorIndicatorFromLocal_def by (rule totalErrorLoop_neg_iff) simp
  have c: "totalErrorIndicatorFromLocal err = totalErrorIndicatorFromLocal err'"
    if "mset err = mset err'" "\<forall>e\<in>set err. 0 \<le> e"
  proof -
    from that(1) have s: "set err = set err'" by (rule mset_eq_setD)
    with that(2) have "\<forall>e\<in>set err'. 0 \<le> e" by simp
    with that(2) s show ?thesis
      by (simp add: totalErrorIndicatorFromLocal_def totalErrorLoop_nonneg)
  qed
  from a b c foldl_updateErrorIndicator [of c err] foldl_updateErrorIndicator_perm [of err err' c]
  show ?thesis by blast
qed

theorem C1_status_fusion_witness:
  "totalErrorIndicatorFromLocal [0, 2, 3] = 3
   \<and> mset [0, 2, 3 :: int] = mset [3, 0, 2]
   \<and> totalErrorIndicatorFromLocal [3, 0, 2] = 3
   \<and> totalErrorIndicatorFromLocal [0, -2, 3] = -2
   \<and> foldl updateErrorIndicator 0 [0, -2, 3] = -2
   \<and> mset [0, -2, 3 :: int] = mset [3, 0, -2]
   \<and> foldl updateErrorIndicator 0 [3, 0, -2] = -2"
proof -
  have p: "mset [0, 2, 3 :: int] = mset [3, 0, 2]" by simp
  have q: "mset [0, -2, 3 :: int] = mset [3, 0, -2]" by simp
  have n: "\<forall>e\<in>set [0, 2, 3 :: int]. 0 \<le> e" by simp
  from C1_status_fusion [of "[0, 2, 3]" "[3, 0, 2]" 0] p n
  have "totalErrorIndicatorFromLocal [0, 2, 3] = totalErrorIndicatorFromLocal [3, 0, 2]"
    by blast
  moreover from C1_status_fusion [of "[0, -2, 3]" "[3, 0, -2]" 0] q
  have "foldl updateErrorIndicator 0 [0, -2, 3] = foldl updateErrorIndicator 0 [3, 0, -2]"
    by blast
  moreover have "totalErrorIndicatorFromLocal [0, 2, 3] = 3"
    by (simp add: totalErrorIndicatorFromLocal_def)
  moreover have "totalErrorIndicatorFromLocal [0, -2, 3] = -2"
    by (simp add: totalErrorIndicatorFromLocal_def)
  moreover have "foldl updateErrorIndicator 0 [0, -2, 3] = -2"
    by (simp add: updateErrorIndicator_def)
  ultimately show ?thesis using p q by simp
qed

subsection \<open>Looking models up\<close>

lemma getUnitOperationModel_None:
  "getUnitOperationModel models unitOpIdx = None \<longleftrightarrow>
     (\<forall>m\<in>set models. unitOperationId m \<noteq> unitOpIdx)"
  by (induction models) auto

lemma getUnitOperationModel_Some:
  "getUnitOperationModel models unitOpIdx = Some m \<Longrightarrow>
     m \<in> set models \<and> unitOperationId m = unitOpIdx"
  by (induction models) (auto split: if_splits)

lemma indexOfUnitOpFrom_lt:
  "\<exists>m\<in>set models. unitOperationId m = unitOpIdx \<Longrightarrow>
     indexOfUnitOpFrom k models unitOpIdx < k + length models"
proof (induction models arbitrary: k)
  case Nil
  then show ?case by simp
next
  case (Cons a models)
  show ?case
  proof (cases "unitOperationId a = unitOpIdx")
    case True
    then show ?thesis by simp
  next
    case False
    with Cons.prems have "\<exists>m\<in>set models. unitOperationId m = unitOpIdx" by auto
    from Cons.IH [OF this, of "Suc k"] False show ?thesis by simp
  qed
qed

lemma getUnitOperationModel_index:
  "indexOfUnitOpFrom k models unitOpIdx - k < length models \<Longrightarrow>
     getUnitOperationModel models unitOpIdx =
       Some (models ! (indexOfUnitOpFrom k models unitOpIdx - k))"
proof (induction models arbitrary: k)
  case Nil
  then show ?case by simp
next
  case (Cons m models)
  show ?case
  proof (cases "unitOperationId m = unitOpIdx")
    case True
    then show ?thesis by simp
  next
    case False
    have ge: "Suc k \<le> indexOfUnitOpFrom (Suc k) models unitOpIdx" for k
      by (induction models arbitrary: k) (auto intro: Suc_leD)
    from False Cons.prems
    have "indexOfUnitOpFrom (Suc k) models unitOpIdx - Suc k < length models"
      using ge [of k] by simp
    from Cons.IH [OF this] False ge [of k] show ?thesis
      by (simp add: Suc_diff_le)
  qed
qed

text \<open>
  C9: \<^verbatim>\<open>getModel\<close> returns null exactly for an index that is not below the number of
  registered models and the model stored at the index otherwise;
  \<^verbatim>\<open>getUnitOperationModel\<close> returns null exactly for an id that no registered model
  holds, and otherwise a registered model with that id (the first one in the list).
\<close>

theorem C9_model_lookup:
  "(length models \<le> i \<longrightarrow> getModel models i = None)
   \<and> (i < length models \<longrightarrow> getModel models i = Some (models ! i))
   \<and> ((\<forall>m\<in>set models. unitOperationId m \<noteq> unitOpIdx) \<longrightarrow>
        getUnitOperationModel models unitOpIdx = None)
   \<and> ((\<exists>m\<in>set models. unitOperationId m = unitOpIdx) \<longrightarrow>
        (\<exists>m. getUnitOperationModel models unitOpIdx = Some m
             \<and> m \<in> set models \<and> unitOperationId m = unitOpIdx
             \<and> indexOfUnitOp models unitOpIdx < length models
             \<and> m = models ! indexOfUnitOp models unitOpIdx))"
proof -
  have a: "getUnitOperationModel models unitOpIdx = None"
    if "\<forall>m\<in>set models. unitOperationId m \<noteq> unitOpIdx"
    using that by (simp add: getUnitOperationModel_None)
  have b: "\<exists>m. getUnitOperationModel models unitOpIdx = Some m
             \<and> m \<in> set models \<and> unitOperationId m = unitOpIdx
             \<and> indexOfUnitOp models unitOpIdx < length models
             \<and> m = models ! indexOfUnitOp models unitOpIdx"
    if "\<exists>m\<in>set models. unitOperationId m = unitOpIdx"
  proof -
    from that have "getUnitOperationModel models unitOpIdx \<noteq> None"
      by (simp add: getUnitOperationModel_None)
    then obtain m where m: "getUnitOperationModel models unitOpIdx = Some m" by auto
    from indexOfUnitOpFrom_lt [OF that, of 0] have i: "indexOfUnitOp models unitOpIdx < length models"
      by (simp add: indexOfUnitOp_def)
    from getUnitOperationModel_index [of 0 models unitOpIdx] i m
    have "m = models ! indexOfUnitOp models unitOpIdx"
      by (simp add: indexOfUnitOp_def)
    with m i getUnitOperationModel_Some [OF m] show ?thesis by simp
  qed
  from a b show ?thesis by (auto simp: getModel_def)
qed

theorem C9_model_lookup_witness:
  "getModel [unitOp 5 3 False True, unitOp 7 2 True False] 2 = None
   \<and> getModel [unitOp 5 3 False True, unitOp 7 2 True False] 1 = Some (unitOp 7 2 True False)
   \<and> getUnitOperationModel [unitOp 5 3 False True, unitOp 7 2 True False] 1 = None
   \<and> getUnitOperationModel [unitOp 5 3 False True, unitOp 7 2 True False] 7
       = Some (unitOp 7 2 True False)"
proof -
  let ?ms = "[unitOp 5 3 False True, unitOp 7 2 True False]"
  have "\<forall>m\<in>set ?ms. unitOperationId m \<noteq> 1" by (simp add: unitOp_def)
  moreover have "\<exists>m\<in>set ?ms. unitOperationId m = 7" by (simp add: unitOp_def)
  moreover have "indexOfUnitOp ?ms 7 = 1" by (simp add: indexOfUnitOp_def unitOp_def)
  moreover note C9_model_lookup [of ?ms 2 1] C9_model_lookup [of ?ms 1 7]
  ultimately show ?thesis by auto
qed

subsection \<open>Validation of connection rows\<close>

lemma static_cast_int_of_int:
  "- 2147483649 < k \<Longrightarrow> k < 2147483648 \<Longrightarrow> static_cast_int (of_int k) = k"
  by (simp add: static_cast_int_def castDefined_def)

lemma static_cast_int_small [simp]:
  "static_cast_int 0 = 0" "static_cast_int 1 = 1" "static_cast_int 2 = 2"
  "static_cast_int 3 = 3" "static_cast_int 4 = 4" "static_cast_int 5 = 5"
  "static_cast_int 7 = 7" "static_cast_int (- 1) = - 1" "static_cast_int (- 2) = - 2"
  using static_cast_int_of_int [of 0] static_cast_int_of_int [of 1] static_cast_int_of_int [of 2]
    static_cast_int_of_int [of 3] static_cast_int_of_int [of 4] static_cast_int_of_int [of 5]
    static_cast_int_of_int [of 7] static_cast_int_of_int [of "- 1"]
    static_cast_int_of_int [of "- 2"]
  by simp_all

lemma castDefined_small [simp]:
  "castDefined 0" "castDefined 1" "castDefined 2" "castDefined 3" "castDefined 4"
  "castDefined 5" "castDefined 7" "castDefined (- 1)" "castDefined (- 2)"
  by (simp_all add: castDefined_def)

text \<open>The rounding on the numbers of the examples.\<close>

lemmas binary64_eval = binary64_def binaryExponent_def roundHalfEven_def twoTo_def Let_def

lemma binary64_small [simp]:
  "binary64 0 = 0" "binary64 1 = 1" "binary64 2 = 2" "binary64 3 = 3" "binary64 4 = 4"
  "binary64 5 = 5" "binary64 6 = 6" "binary64 (- 1) = - 1"
  by (simp_all add: binary64_eval)

lemma indexOfUnitOpFrom_notin:
  "\<forall>m\<in>set models. unitOperationId m \<noteq> unitOpIdx \<Longrightarrow>
     indexOfUnitOpFrom k models unitOpIdx = k + length models"
  by (induction models arbitrary: k) auto

lemma indexOfUnitOp_lt_iff:
  "indexOfUnitOp models unitOpIdx < length models \<longleftrightarrow>
     getUnitOperationModel models unitOpIdx \<noteq> None"
proof (cases "\<exists>m\<in>set models. unitOperationId m = unitOpIdx")
  case True
  from indexOfUnitOpFrom_lt [OF True, of 0] True show ?thesis
    by (simp add: indexOfUnitOp_def getUnitOperationModel_None)
next
  case False
  then have "\<forall>m\<in>set models. unitOperationId m \<noteq> unitOpIdx" by simp
  from indexOfUnitOpFrom_notin [OF this, of 0] False show ?thesis
    by (simp add: indexOfUnitOp_def getUnitOperationModel_None)
qed

lemma getUnitOperationModel_indexOfUnitOp:
  "indexOfUnitOp models unitOpIdx < length models \<Longrightarrow>
     getUnitOperationModel models unitOpIdx = Some (models ! indexOfUnitOp models unitOpIdx)"
  using getUnitOperationModel_index [of 0 models unitOpIdx] by (simp add: indexOfUnitOp_def)

lemma checkRow_Inl_iff:
  "(\<exists>e. checkRow rnd models conn idxSwitch i st = Inl e) \<longleftrightarrow>
     rowRejected models (static_cast_int (conn ! (5 * i))) (static_cast_int (conn ! (5 * i + 1)))
       (static_cast_int (conn ! (5 * i + 2))) (static_cast_int (conn ! (5 * i + 3)))"
proof -
  define sId dId cs cd where "sId = static_cast_int (conn ! (5 * i))"
    and "dId = static_cast_int (conn ! (5 * i + 1))"
    and "cs = static_cast_int (conn ! (5 * i + 2))"
    and "cd = static_cast_int (conn ! (5 * i + 3))"
  define s d where "s = indexOfUnitOp models (nat sId)" and "d = indexOfUnitOp models (nat dId)"
  define S D where "S = models ! s" and "D = models ! d"
  note defs = sId_def [symmetric] dId_def [symmetric] cs_def [symmetric] cd_def [symmetric]
    s_def [symmetric] d_def [symmetric] S_def [symmetric] D_def [symmetric]
  show ?thesis
    unfolding checkRow_def rowRejected_def Let_def defs
    by (simp only: if_distrib [of "\<lambda>r. \<exists>e. r = Inl e"] sum.inject sum.distinct simp_thms
          if_bool_eq_disj) blast
qed

lemma rowRejected_negativeWildcard:
  "rowRejected models sId dId cs cd \<longleftrightarrow> negativeWildcardRowError models sId dId cs cd"
proof -
  define s d where "s = indexOfUnitOp models (nat sId)" and "d = indexOfUnitOp models (nat dId)"
  show ?thesis
  proof (cases "s < length models \<and> d < length models")
    case True
    then have g: "getUnitOperationModel models (nat sId) = Some (models ! s)"
      "getUnitOperationModel models (nat dId) = Some (models ! d)"
      by (simp_all add: getUnitOperationModel_indexOfUnitOp s_def d_def)
    have n: "0 \<le> k \<Longrightarrow> (m \<le> nat k) = (int m \<le> k)" for m k by (rule le_nat_iff)
    have w: "k < 0 \<Longrightarrow> \<not> int m \<le> k" for m k by simp
    from True g show ?thesis
      unfolding rowRejected_def negativeWildcardRowError_def rowErrorWith_def isNegative_def
        s_def [symmetric] d_def [symmetric]
      using n [of cs] n [of cd] w [of cs] w [of cd] by (auto simp: not_le not_less)
  next
    case False
    then have "getUnitOperationModel models (nat sId) = None
       \<or> getUnitOperationModel models (nat dId) = None"
      unfolding s_def d_def using indexOfUnitOp_lt_iff by blast
    with False show ?thesis
      unfolding rowRejected_def negativeWildcardRowError_def rowErrorWith_def s_def d_def
      by (auto simp: not_less split: option.splits)
  qed
qed

lemma negativeWildcard_claimed:
  assumes "- 1 \<le> cs" "- 1 \<le> cd"
  shows "negativeWildcardRowError models sId dId cs cd \<longleftrightarrow> claimedRowError models sId dId cs cd"
proof -
  from assms have "isNegative cs = isWildcard cs" "isNegative cd = isWildcard cd"
    by (auto simp: isNegative_def isWildcard_def)
  then show ?thesis
    by (simp add: negativeWildcardRowError_def claimedRowError_def rowErrorWith_def
        split: option.splits)
qed

lemma checkRow_Inr:
  "\<not> rowRejected models (static_cast_int (conn ! (5 * i))) (static_cast_int (conn ! (5 * i + 1)))
       (static_cast_int (conn ! (5 * i + 2))) (static_cast_int (conn ! (5 * i + 3))) \<Longrightarrow>
   \<exists>st'. checkRow rnd models conn idxSwitch i st = Inr st'
     \<and> connOnly st' = (connOnly st)
          [4 * i := int (indexOfUnitOp models (nat (static_cast_int (conn ! (5 * i))))),
           4 * i + 1 := int (indexOfUnitOp models (nat (static_cast_int (conn ! (5 * i + 1))))),
           4 * i + 2 := static_cast_int (conn ! (5 * i + 2)),
           4 * i + 3 := static_cast_int (conn ! (5 * i + 3))]"
  unfolding rowRejected_def checkRow_def Let_def
  by (simp only: de_Morgan_disj if_not_P if_False simp_thms not_le not_less) simp

lemma checkRow_not_other:
  "checkRow rnd models conn idxSwitch i st = Inl e \<Longrightarrow>
     e \<noteq> UndefinedBehaviour \<and> e \<noteq> FirstSectionNotZero \<and> e \<noteq> ConnectionsNotFiveColumns
     \<and> (\<forall>k. e \<noteq> SectionNotMonotonic k) \<and> (\<forall>a b c. e \<noteq> FlowBalanceNotClosed a b c)"
  unfolding checkRow_def Let_def by (auto split: if_splits)

lemma checkRows_Inl_iff:
  "(\<exists>e. checkRows rnd models conn idxSwitch rows st = Inl e) \<longleftrightarrow>
     (\<exists>i\<in>set rows. rowRejected models (static_cast_int (conn ! (5 * i)))
        (static_cast_int (conn ! (5 * i + 1))) (static_cast_int (conn ! (5 * i + 2)))
        (static_cast_int (conn ! (5 * i + 3))))"
proof (induction rows arbitrary: st)
  case Nil
  then show ?case by simp
next
  case (Cons i rows)
  show ?case
  proof (cases "checkRow rnd models conn idxSwitch i st")
    case (Inl e)
    then have "\<exists>e. checkRow rnd models conn idxSwitch i st = Inl e" by blast
    then have "rowRejected models (static_cast_int (conn ! (5 * i)))
        (static_cast_int (conn ! (5 * i + 1))) (static_cast_int (conn ! (5 * i + 2)))
        (static_cast_int (conn ! (5 * i + 3)))" using checkRow_Inl_iff by blast
    with Inl show ?thesis by auto
  next
    case (Inr st')
    then have "\<not> (\<exists>e. checkRow rnd models conn idxSwitch i st = Inl e)" by simp
    then have "\<not> rowRejected models (static_cast_int (conn ! (5 * i)))
        (static_cast_int (conn ! (5 * i + 1))) (static_cast_int (conn ! (5 * i + 2)))
        (static_cast_int (conn ! (5 * i + 3)))" using checkRow_Inl_iff by blast
    with Inr Cons.IH [of st'] show ?thesis by auto
  qed
qed


text \<open>
  C7, as stated, with the wildcard \<open>-1\<close> of the specification. The validation tests the
  sign of the component indices, so the claimed equivalence fails in both directions.
  The row with the component indices \<open>-2\<close> and \<open>0\<close> is refused (only one side connects
  all components) although none of the listed conditions holds: neither index is the
  wildcard and neither reaches the number of components. The row with the component
  indices \<open>-1\<close> and \<open>-2\<close> is accepted although exactly one of them is the wildcard.
\<close>

theorem C7_wildcard_counterexample:
  "checkRow binary64 [unitOp 3 2 False True, unitOp 7 2 True False] [3, 7, - 2, 0, 1] 0 0
       \<lparr>totalInflow = [0, 0], totalOutflow = [0, 0], connOnly = [0, 0, 0, 0], flowRates = [0]\<rparr>
     = Inl (OnlyOneSideAllComponents 0 0 3 7)
   \<and> \<not> claimedRowError [unitOp 3 2 False True, unitOp 7 2 True False]
         (static_cast_int 3) (static_cast_int 7) (static_cast_int (- 2)) (static_cast_int 0)
   \<and> checkRow binary64 [unitOp 3 2 False True, unitOp 7 2 True False] [3, 7, - 1, - 2, 1] 0 0
       \<lparr>totalInflow = [0, 0], totalOutflow = [0, 0], connOnly = [0, 0, 0, 0], flowRates = [0]\<rparr>
     = Inr \<lparr>totalInflow = [0, 1], totalOutflow = [1, 0], connOnly = [0, 1, - 1, - 2],
            flowRates = [1]\<rparr>
   \<and> claimedRowError [unitOp 3 2 False True, unitOp 7 2 True False]
         (static_cast_int 3) (static_cast_int 7) (static_cast_int (- 1)) (static_cast_int (- 2))"
  by (simp add: checkRow_def claimedRowError_def rowErrorWith_def isWildcard_def unitOp_def
      indexOfUnitOp_def findPrevious_def Let_def)

text \<open>
  C7, amended: every negative component index counts as the wildcard. For a row of the
  connection list whose four indices convert to \<^verbatim>\<open>int\<close>, the validation raises a
  configuration error if and only if a unit id of the row is negative or unknown, the
  source unit has no outlet, the destination unit has no inlet, a component index that
  is not negative is at least the number of components of its unit, exactly one of the
  two component indices is negative, or both are and the numbers of components differ;
  otherwise the row is accepted and written to the output with the local indices of its
  units. For component indices from \<open>-1\<close> on these are the conditions of the
  specification. The loop over the rows raises exactly when one of its rows is refused.
\<close>

theorem C7_row_validation:
  assumes "rowDefined conn i"
  shows
  "((\<exists>e. checkRow rnd models conn idxSwitch i st = Inl e) \<longleftrightarrow>
      negativeWildcardRowError models (static_cast_int (conn ! (5 * i)))
        (static_cast_int (conn ! (5 * i + 1))) (static_cast_int (conn ! (5 * i + 2)))
        (static_cast_int (conn ! (5 * i + 3))))
   \<and> (\<forall>e. checkRow rnd models conn idxSwitch i st = Inl e \<longrightarrow> e \<noteq> UndefinedBehaviour)
   \<and> (\<not> negativeWildcardRowError models (static_cast_int (conn ! (5 * i)))
        (static_cast_int (conn ! (5 * i + 1))) (static_cast_int (conn ! (5 * i + 2)))
        (static_cast_int (conn ! (5 * i + 3))) \<longrightarrow>
       (\<exists>st'. checkRow rnd models conn idxSwitch i st = Inr st'
          \<and> connOnly st' = (connOnly st)
               [4 * i := int (indexOfUnitOp models (nat (static_cast_int (conn ! (5 * i))))),
                4 * i + 1 := int (indexOfUnitOp models (nat (static_cast_int (conn ! (5 * i + 1))))),
                4 * i + 2 := static_cast_int (conn ! (5 * i + 2)),
                4 * i + 3 := static_cast_int (conn ! (5 * i + 3))]))
   \<and> (- 1 \<le> static_cast_int (conn ! (5 * i + 2)) \<and> - 1 \<le> static_cast_int (conn ! (5 * i + 3)) \<longrightarrow>
        ((\<exists>e. checkRow rnd models conn idxSwitch i st = Inl e) \<longleftrightarrow>
           claimedRowError models (static_cast_int (conn ! (5 * i)))
             (static_cast_int (conn ! (5 * i + 1))) (static_cast_int (conn ! (5 * i + 2)))
             (static_cast_int (conn ! (5 * i + 3)))))
   \<and> ((\<forall>j\<in>set rows. rowDefined conn j) \<longrightarrow>
        ((\<exists>e. checkRows rnd models conn idxSwitch rows st = Inl e) \<longleftrightarrow>
           (\<exists>j\<in>set rows. negativeWildcardRowError models (static_cast_int (conn ! (5 * j)))
              (static_cast_int (conn ! (5 * j + 1))) (static_cast_int (conn ! (5 * j + 2)))
              (static_cast_int (conn ! (5 * j + 3))))))"
proof -
  let ?sId = "static_cast_int (conn ! (5 * i))" and ?dId = "static_cast_int (conn ! (5 * i + 1))"
  let ?cs = "static_cast_int (conn ! (5 * i + 2))" and ?cd = "static_cast_int (conn ! (5 * i + 3))"
  note row = checkRow_Inl_iff [of rnd models conn idxSwitch i st, unfolded rowRejected_negativeWildcard]
  note acc = checkRow_Inr [of models conn i rnd idxSwitch st, unfolded rowRejected_negativeWildcard]
  note other = checkRow_not_other [of rnd models conn idxSwitch i st]
  note rows = checkRows_Inl_iff [of rnd models conn idxSwitch rows st,
      unfolded rowRejected_negativeWildcard]
  have agree: "- 1 \<le> ?cs \<and> - 1 \<le> ?cd \<longrightarrow>
      (negativeWildcardRowError models ?sId ?dId ?cs ?cd \<longleftrightarrow> claimedRowError models ?sId ?dId ?cs ?cd)"
    using negativeWildcard_claimed by blast
  from row acc other rows agree show ?thesis by blast
qed

theorem C7_row_validation_witness:
  "rowDefined [3, 7, - 1, - 1, 1] 0
   \<and> \<not> negativeWildcardRowError [unitOp 3 2 False True, unitOp 7 2 True False] 3 7 (- 1) (- 1)
   \<and> (\<exists>st'. checkRow binary64 [unitOp 3 2 False True, unitOp 7 2 True False]
          [3, 7, - 1, - 1, 1] 0 0
          \<lparr>totalInflow = [0, 0], totalOutflow = [0, 0], connOnly = [0, 0, 0, 0], flowRates = [0]\<rparr>
        = Inr st' \<and> connOnly st' = [0, 1, - 1, - 1])
   \<and> rowDefined [3, 7, - 1, 0, 1] 0
   \<and> claimedRowError [unitOp 3 2 False True, unitOp 7 2 True False] 3 7 (- 1) 0
   \<and> (\<exists>e. checkRow binary64 [unitOp 3 2 False True, unitOp 7 2 True False]
          [3, 7, - 1, 0, 1] 0 0
          \<lparr>totalInflow = [0, 0], totalOutflow = [0, 0], connOnly = [0, 0, 0, 0], flowRates = [0]\<rparr>
        = Inl e)
   \<and> (\<exists>e. checkRows binary64 [unitOp 3 2 False True, unitOp 7 2 True False]
          [3, 7, - 1, 0, 1] 0 [0]
          \<lparr>totalInflow = [0, 0], totalOutflow = [0, 0], connOnly = [0, 0, 0, 0], flowRates = [0]\<rparr>
        = Inl e)"
proof -
  let ?ms = "[unitOp 3 2 False True, unitOp 7 2 True False]"
  let ?st = "\<lparr>totalInflow = [0, 0], totalOutflow = [0, 0], connOnly = [0, 0, 0, 0], flowRates = [0::real]\<rparr>"
  have d1: "rowDefined [3, 7, - 1, - 1, 1] 0" and d2: "rowDefined [3, 7, - 1, 0, 1] 0"
    by (simp_all add: rowDefined_def)
  have d3: "\<forall>j\<in>set [0]. rowDefined [3, 7, - 1, 0, 1] j" using d2 by simp
  have ok: "\<not> negativeWildcardRowError ?ms 3 7 (- 1) (- 1)"
    by (simp add: negativeWildcardRowError_def rowErrorWith_def isNegative_def unitOp_def)
  have bad: "claimedRowError ?ms 3 7 (- 1) 0"
    by (simp add: claimedRowError_def rowErrorWith_def isWildcard_def unitOp_def)
  have bad': "negativeWildcardRowError ?ms 3 7 (- 1) 0"
    by (simp add: negativeWildcardRowError_def rowErrorWith_def isNegative_def unitOp_def)
  have idx: "indexOfUnitOp ?ms 3 = 0" "indexOfUnitOp ?ms 7 = 1"
    by (simp_all add: indexOfUnitOp_def unitOp_def)
  from C7_row_validation [OF d1, of binary64 ?ms 0 ?st "[]"] ok
  have "\<exists>st'. checkRow binary64 ?ms [3, 7, - 1, - 1, 1] 0 0 ?st = Inr st'
      \<and> connOnly st' = [0, 1, - 1, - 1]"
    by (simp add: idx)
  moreover from C7_row_validation [OF d2, of binary64 ?ms 0 ?st "[0]"] bad' d3
  have "(\<exists>e. checkRow binary64 ?ms [3, 7, - 1, 0, 1] 0 0 ?st = Inl e)
      \<and> (\<exists>e. checkRows binary64 ?ms [3, 7, - 1, 0, 1] 0 [0] ?st = Inl e)"
    by simp
  ultimately show ?thesis using ok bad d1 d2 by simp
qed

subsection \<open>Reading the switches\<close>

lemma checkBalance_error:
  "checkBalance rnd models idxSwitch st units = Some e \<Longrightarrow>
     \<exists>i\<in>set units. checkBalanceOf rnd models idxSwitch st i = Some e"
  by (induction units) (auto split: option.splits)

lemma checkBalanceOf_error:
  "checkBalanceOf rnd models idxSwitch st i = Some e \<Longrightarrow>
     e = FlowBalanceNotClosed idxSwitch i \<bar>rnd (totalInflow st ! i - totalOutflow st ! i)\<bar>"
  unfolding checkBalanceOf_def Let_def by (simp split: if_splits)

lemma checkRows_not_other:
  "checkRows rnd models conn idxSwitch rows st = Inl e \<Longrightarrow>
     e \<noteq> UndefinedBehaviour \<and> e \<noteq> FirstSectionNotZero \<and> e \<noteq> ConnectionsNotFiveColumns
     \<and> (\<forall>k. e \<noteq> SectionNotMonotonic k) \<and> (\<forall>a b c. e \<noteq> FlowBalanceNotClosed a b c)"
proof (induction rows arbitrary: st)
  case Nil
  then show ?case by simp
next
  case (Cons i rows)
  show ?case
  proof (cases "checkRow rnd models conn idxSwitch i st")
    case (Inl e')
    with Cons.prems have "e' = e" by simp
    with Inl checkRow_not_other show ?thesis by blast
  next
    case (Inr st')
    with Cons show ?thesis by simp
  qed
qed

lemma checkConnectionList_error:
  assumes "checkConnectionList rnd models conn connOnly0 flowRates0 idxSwitch = Inl e"
  shows "e \<noteq> UndefinedBehaviour \<and> e \<noteq> FirstSectionNotZero \<and> e \<noteq> ConnectionsNotFiveColumns
     \<and> (\<forall>k. e \<noteq> SectionNotMonotonic k)"
proof (cases "checkRows rnd models conn idxSwitch [0..<length conn div 5]
             \<lparr>totalInflow = replicate (length models) 0,
              totalOutflow = replicate (length models) 0,
              connOnly = connOnly0, flowRates = flowRates0\<rparr>")
  case (Inl e')
  with assms have "e' = e" by (simp add: checkConnectionList_def)
  with Inl checkRows_not_other show ?thesis by blast
next
  case (Inr st)
  with assms have "checkBalance rnd models idxSwitch st [0..<length models] = Some e"
    by (simp add: checkConnectionList_def split: option.splits)
  then obtain i where "checkBalanceOf rnd models idxSwitch st i = Some e"
    using checkBalance_error by blast
  from checkBalanceOf_error [OF this] show ?thesis by simp
qed

lemma sorted_wrt_less_snoc:
  fixes x :: int
  assumes "sorted_wrt (<) xs"
  shows "sorted_wrt (<) (xs @ [x]) \<longleftrightarrow> xs = [] \<or> last xs < x"
proof (cases "xs = []")
  case True
  then show ?thesis by simp
next
  case False
  have le: "y \<le> last xs" if "y \<in> set xs" for y
    using assms that by (induction xs) (auto simp: less_imp_le)
  have "(\<forall>y\<in>set xs. y < x) \<longleftrightarrow> last xs < x"
  proof
    assume "\<forall>y\<in>set xs. y < x"
    with False show "last xs < x" by simp
  next
    assume "last xs < x"
    with le show "\<forall>y\<in>set xs. y < x" by fastforce
  qed
  with assms False show ?thesis by (simp add: sorted_wrt_append)
qed

lemma section_check:
  "length xs = i \<Longrightarrow>
     (0 < i \<and> last (xs @ [x]) \<le> (xs @ [x]) ! (length (xs @ [x]) - 2)) \<longleftrightarrow>
     (xs \<noteq> [] \<and> x \<le> last xs)"
  by (cases xs rule: rev_cases) (auto simp: nth_append)

lemma configureSwitchLoop_Cons:
  assumes "length (switchSectionIndex st) = i"
  shows "configureSwitchLoop rnd models i (scope # scopes) st =
     (if switchSectionIndex st \<noteq> [] \<and> SECTION scope \<le> last (switchSectionIndex st)
      then Inl (SectionNotMonotonic i)
      else if length (CONNECTIONS scope) mod 5 \<noteq> 0 then Inl ConnectionsNotFiveColumns
      else (case checkConnectionList rnd models (CONNECTIONS scope)
                   (replicate (length (CONNECTIONS scope) div 5 * 4) 0)
                   (replicate (length (CONNECTIONS scope) div 5) 0) i of
              Inl e \<Rightarrow> Inl e
            | Inr (conn, fr) \<Rightarrow>
                configureSwitchLoop rnd models (Suc i) scopes
                  (st\<lparr>switchSectionIndex := switchSectionIndex st @ [SECTION scope],
                      connections := connections st @ [conn],
                      flowRateSlices := flowRateSlices st @ [fr],
                      parameters :=
                        (if 0 < length fr
                         then registerFlowRates conn i [1..<length fr]
                                (AList.update (CONNECTION (conn ! 0) (conn ! 1) i) (i, 0)
                                   (parameters st))
                         else parameters st)\<rparr>)))"
  by (simp only: configureSwitchLoop.simps Let_def section_check [OF assms])

lemma configureSwitchLoop_Inr:
  "configureSwitchLoop rnd models i scopes st = Inr st' \<Longrightarrow> length (switchSectionIndex st) = i \<Longrightarrow>
     sorted_wrt (<) (switchSectionIndex st) \<Longrightarrow>
     switchSectionIndex st' = switchSectionIndex st @ map SECTION scopes
     \<and> sorted_wrt (<) (switchSectionIndex st')"
proof (induction scopes arbitrary: i st)
  case Nil
  then show ?case by simp
next
  case (Cons scope scopes)
  let ?secs = "switchSectionIndex st @ [SECTION scope]"
  note step = Cons.prems(1) [unfolded configureSwitchLoop_Cons [OF Cons.prems(2)]]
  from step
  have ok: "\<not> (switchSectionIndex st \<noteq> [] \<and> SECTION scope \<le> last (switchSectionIndex st))"
    by (auto split: if_splits)
  with Cons.prems(3) have sorted: "sorted_wrt (<) ?secs"
    by (simp only: sorted_wrt_less_snoc) auto
  from ok step
  obtain conn fr where
    rec: "configureSwitchLoop rnd models (Suc i) scopes
            (st\<lparr>switchSectionIndex := ?secs,
                connections := connections st @ [conn],
                flowRateSlices := flowRateSlices st @ [fr],
                parameters :=
                  (if 0 < length fr
                   then registerFlowRates conn i [1..<length fr]
                          (AList.update (CONNECTION (conn ! 0) (conn ! 1) i) (i, 0) (parameters st))
                   else parameters st)\<rparr>) = Inr st'"
    by (auto split: if_splits sum.splits)
  have "switchSectionIndex st' = ?secs @ map SECTION scopes
     \<and> sorted_wrt (<) (switchSectionIndex st')"
    using Cons.IH [OF rec] Cons.prems(2) sorted by auto
  then show ?case by auto
qed

lemma configureSwitchLoop_Inl:
  "configureSwitchLoop rnd models i scopes st = Inl e \<Longrightarrow> length (switchSectionIndex st) = i \<Longrightarrow>
     sorted_wrt (<) (switchSectionIndex st) \<Longrightarrow>
     e \<noteq> UndefinedBehaviour \<and> e \<noteq> FirstSectionNotZero
     \<and> ((\<exists>k. e = SectionNotMonotonic k) \<longrightarrow>
           \<not> sorted_wrt (<) (switchSectionIndex st @ map SECTION scopes))"
proof (induction scopes arbitrary: i st)
  case Nil
  then show ?case by simp
next
  case (Cons scope scopes)
  let ?secs = "switchSectionIndex st @ [SECTION scope]"
  note step = Cons.prems(1) [unfolded configureSwitchLoop_Cons [OF Cons.prems(2)]]
  have app: "switchSectionIndex st @ map SECTION (scope # scopes) = ?secs @ map SECTION scopes"
    by simp
  show ?case
  proof (cases "switchSectionIndex st \<noteq> [] \<and> SECTION scope \<le> last (switchSectionIndex st)")
    case True
    with Cons.prems(3) have "\<not> sorted_wrt (<) ?secs"
      by (simp only: sorted_wrt_less_snoc) auto
    then have ns: "\<not> sorted_wrt (<) (switchSectionIndex st @ map SECTION (scope # scopes))"
      unfolding app by (simp only: sorted_wrt_append simp_thms)
    from True step have "e = SectionNotMonotonic i" by (auto split: if_splits)
    with ns show ?thesis by simp
  next
    case False
    with Cons.prems(3) have sorted: "sorted_wrt (<) ?secs"
      by (simp only: sorted_wrt_less_snoc) auto
    show ?thesis
    proof (cases "length (CONNECTIONS scope) mod 5 \<noteq> 0")
      case True
      with False step have "e = ConnectionsNotFiveColumns" by (auto split: if_splits)
      then show ?thesis by simp
    next
      case five: False
      show ?thesis
      proof (cases "checkConnectionList rnd models (CONNECTIONS scope)
                        (replicate (length (CONNECTIONS scope) div 5 * 4) 0)
                        (replicate (length (CONNECTIONS scope) div 5) 0) i")
        case (Inl e')
        with five False step have "e' = e" by (auto split: if_splits)
        with checkConnectionList_error [OF Inl] show ?thesis by simp
      next
        case (Inr r)
        obtain conn fr where r: "r = (conn, fr)" by (cases r)
        with Inr five False step
        have rec: "configureSwitchLoop rnd models (Suc i) scopes
            (st\<lparr>switchSectionIndex := ?secs,
                connections := connections st @ [conn],
                flowRateSlices := flowRateSlices st @ [fr],
                parameters :=
                  (if 0 < length fr
                   then registerFlowRates conn i [1..<length fr]
                          (AList.update (CONNECTION (conn ! 0) (conn ! 1) i) (i, 0) (parameters st))
                   else parameters st)\<rparr>) = Inl e"
          by (auto split: if_splits)
        have "e \<noteq> UndefinedBehaviour \<and> e \<noteq> FirstSectionNotZero
          \<and> ((\<exists>k. e = SectionNotMonotonic k) \<longrightarrow>
                \<not> sorted_wrt (<) (?secs @ map SECTION scopes))"
          using Cons.IH [OF rec] Cons.prems(2) sorted by auto
        then show ?thesis unfolding app by blast
      qed
    qed
  qed
qed


text \<open>
  C6: configuring the switches raises a configuration error if the \<^verbatim>\<open>SECTION\<close> indices
  of the switches are not strictly increasing or if the first of them is not 0; a list of
  switches that satisfies both is never refused by these two checks, and whenever the
  configuration succeeds the stored section indices are those of the switches, strictly
  increasing and starting at 0.
\<close>

theorem C6_switch_sections:
  "((\<not> sorted_wrt (<) (map SECTION scopes) \<or> (scopes \<noteq> [] \<and> SECTION (hd scopes) \<noteq> 0)) \<longrightarrow>
      (\<exists>e. configureSwitches rnd models scopes st = Inl e \<and> e \<noteq> UndefinedBehaviour))
   \<and> ((sorted_wrt (<) (map SECTION scopes) \<and> scopes \<noteq> [] \<and> SECTION (hd scopes) = 0) \<longrightarrow>
        configureSwitches rnd models scopes st \<noteq> Inl FirstSectionNotZero
        \<and> (\<forall>i. configureSwitches rnd models scopes st \<noteq> Inl (SectionNotMonotonic i))
        \<and> configureSwitches rnd models scopes st \<noteq> Inl UndefinedBehaviour)
   \<and> (\<forall>st'. configureSwitches rnd models scopes st = Inr st' \<longrightarrow>
        switchSectionIndex st' = map SECTION scopes
        \<and> sorted_wrt (<) (map SECTION scopes) \<and> scopes \<noteq> [] \<and> SECTION (hd scopes) = 0)"
proof -
  let ?st0 = "st\<lparr>switchSectionIndex := [], connections := [], flowRateSlices := []\<rparr>"
  have len: "length (switchSectionIndex ?st0) = 0" and srt: "sorted_wrt (<) (switchSectionIndex ?st0)"
    by simp_all
  show ?thesis
  proof (cases "configureSwitchLoop rnd models 0 scopes ?st0")
    case (Inl e)
    from configureSwitchLoop_Inl [OF Inl len srt]
    have e: "e \<noteq> UndefinedBehaviour" "e \<noteq> FirstSectionNotZero"
      "(\<exists>k. e = SectionNotMonotonic k) \<longrightarrow> \<not> sorted_wrt (<) (map SECTION scopes)"
      by simp_all
    from Inl have "configureSwitches rnd models scopes st = Inl e"
      by (simp add: configureSwitches_def)
    with e show ?thesis by auto
  next
    case (Inr st')
    from configureSwitchLoop_Inr [OF Inr len srt]
    have s: "switchSectionIndex st' = map SECTION scopes" "sorted_wrt (<) (map SECTION scopes)"
      by auto
    have hd: "switchSectionIndex st' ! 0 = SECTION (hd scopes)" if "scopes \<noteq> []"
      using that s(1) by (cases scopes) simp_all
    from Inr have r: "configureSwitches rnd models scopes st =
        (if scopes = [] then Inl UndefinedBehaviour
         else if SECTION (hd scopes) \<noteq> 0 then Inl FirstSectionNotZero else Inr st')"
      using s(1) hd by (simp add: configureSwitches_def)
    show ?thesis unfolding r using s by auto
  qed
qed

theorem C6_switch_sections_witness:
  "(\<exists>e. configureSwitches binary64 [] [\<lparr>SECTION = 0, CONNECTIONS = []\<rparr>, \<lparr>SECTION = 0, CONNECTIONS = []\<rparr>]
           noSwitches = Inl e \<and> e \<noteq> UndefinedBehaviour)
   \<and> (\<exists>e. configureSwitches binary64 [] [\<lparr>SECTION = 1, CONNECTIONS = []\<rparr>] noSwitches = Inl e
           \<and> e \<noteq> UndefinedBehaviour)
   \<and> configureSwitches binary64 [] [\<lparr>SECTION = 0, CONNECTIONS = []\<rparr>, \<lparr>SECTION = 2, CONNECTIONS = []\<rparr>]
        noSwitches
      = Inr \<lparr>switchSectionIndex = [0, 2], connections = [[], []], flowRateSlices = [[], []],
             parameters = []\<rparr>
   \<and> sorted_wrt (<) (map SECTION [\<lparr>SECTION = 0, CONNECTIONS = []\<rparr>, \<lparr>SECTION = 2, CONNECTIONS = []\<rparr>])"
proof -
  have a: "\<not> sorted_wrt (<) (map SECTION [\<lparr>SECTION = 0, CONNECTIONS = []\<rparr>, \<lparr>SECTION = 0, CONNECTIONS = []\<rparr>])"
    by simp
  have b: "[\<lparr>SECTION = 1, CONNECTIONS = []\<rparr>] \<noteq> [] \<and> SECTION (hd [\<lparr>SECTION = 1, CONNECTIONS = []\<rparr>]) \<noteq> 0"
    by simp
  have c: "configureSwitches binary64 [] [\<lparr>SECTION = 0, CONNECTIONS = []\<rparr>, \<lparr>SECTION = 2, CONNECTIONS = []\<rparr>]
        noSwitches
      = Inr \<lparr>switchSectionIndex = [0, 2], connections = [[], []], flowRateSlices = [[], []],
             parameters = []\<rparr>"
    by (simp add: configureSwitches_def noSwitches_def checkConnectionList_def)
  from C6_switch_sections [of "[\<lparr>SECTION = 0, CONNECTIONS = []\<rparr>, \<lparr>SECTION = 0, CONNECTIONS = []\<rparr>]" binary64 "[]" noSwitches] a
  have "\<exists>e. configureSwitches binary64 [] [\<lparr>SECTION = 0, CONNECTIONS = []\<rparr>, \<lparr>SECTION = 0, CONNECTIONS = []\<rparr>]
           noSwitches = Inl e \<and> e \<noteq> UndefinedBehaviour" by blast
  moreover from C6_switch_sections [of "[\<lparr>SECTION = 1, CONNECTIONS = []\<rparr>]" binary64 "[]" noSwitches] b
  have "\<exists>e. configureSwitches binary64 [] [\<lparr>SECTION = 1, CONNECTIONS = []\<rparr>] noSwitches = Inl e
           \<and> e \<noteq> UndefinedBehaviour" by blast
  moreover from C6_switch_sections [of "[\<lparr>SECTION = 0, CONNECTIONS = []\<rparr>, \<lparr>SECTION = 2, CONNECTIONS = []\<rparr>]" binary64 "[]" noSwitches] c
  have "sorted_wrt (<) (map SECTION [\<lparr>SECTION = 0, CONNECTIONS = []\<rparr>, \<lparr>SECTION = 2, CONNECTIONS = []\<rparr>])"
    by blast
  ultimately show ?thesis using c by blast
qed

subsection \<open>The coupling index map\<close>

lemma componentLoop_zip:
  "\<forall>c\<in>set comps. (i, c) \<notin> fst ` set m \<Longrightarrow> distinct comps \<Longrightarrow>
     componentLoop i comps (m, counter) =
       (m @ zip (map (Pair i) comps) [counter..<counter + length comps], counter + length comps)"
proof (induction comps arbitrary: m counter)
  case Nil
  then show ?case by simp
next
  case (Cons c comps)
  from Cons.prems have fresh: "(i, c) \<notin> fst ` set m" by simp
  then have ins: "map_insert (i, c) counter m = m @ [((i, c), counter)]"
    by (simp add: map_insert_def)
  from Cons.prems have "\<forall>c'\<in>set comps. (i, c') \<notin> fst ` set (m @ [((i, c), counter)])"
    by auto
  from Cons.IH [OF this, of "Suc counter"] Cons.prems(2)
  have ih: "componentLoop i comps (m @ [((i, c), counter)], Suc counter) =
      (m @ [((i, c), counter)] @ zip (map (Pair i) comps) [Suc counter..<Suc counter + length comps],
       Suc counter + length comps)" by simp
  have u: "[counter..<counter + length (c # comps)]
      = counter # [Suc counter..<Suc counter + length comps]"
    by (subst upt_rec) simp
  show ?case unfolding u using ih ins by simp
qed

lemma couplingLoop_zip:
  "set (inletComponents models units) \<inter> fst ` set m = {} \<Longrightarrow> distinct units \<Longrightarrow>
     couplingLoop models units (m, counter) =
       (m @ zip (inletComponents models units)
              [counter..<counter + length (inletComponents models units)],
        counter + length (inletComponents models units))"
proof (induction units arbitrary: m counter)
  case Nil
  then show ?case by (simp add: inletComponents_def)
next
  case (Cons i units)
  let ?K = "inletComponents models units"
  have K: "fst ` set ?K \<subseteq> set units"
    by (auto simp: inletComponents_def split: if_splits)
  show ?case
  proof (cases "hasInlet (models ! i)")
    case False
    then have eq: "inletComponents models (i # units) = ?K"
      by (simp add: inletComponents_def)
    with Cons.prems have "set ?K \<inter> fst ` set m = {}" by simp
    from Cons.IH [OF this, of counter] Cons.prems(2) False eq show ?thesis by simp
  next
    case True
    let ?n = "numComponents (models ! i)"
    let ?C = "map (Pair i) [0..<?n]"
    have eq: "inletComponents models (i # units) = ?C @ ?K"
      using True by (simp add: inletComponents_def)
    from Cons.prems(1) have f1: "\<forall>c\<in>set [0..<?n]. (i, c) \<notin> fst ` set m"
      unfolding eq by auto
    let ?m' = "m @ zip ?C [counter..<counter + ?n]"
    have step: "componentLoop i [0..<?n] (m, counter) = (?m', counter + ?n)"
      using componentLoop_zip [OF f1, of counter] by simp
    have "map fst (zip ?C [counter..<counter + ?n]) = ?C"
      by (rule map_fst_zip) simp
    then have "fst ` set (zip ?C [counter..<counter + ?n]) = set ?C"
      by (simp only: set_map [symmetric])
    then have keys: "fst ` set ?m' = fst ` set m \<union> set ?C"
      by (simp only: set_append image_Un)
    from Cons.prems(2) K have "set ?K \<inter> set ?C = {}" by auto
    with Cons.prems(1) have f2: "set ?K \<inter> fst ` set ?m' = {}"
      unfolding eq keys by auto
    have split: "[counter..<counter + (?n + length ?K)]
        = [counter..<counter + ?n] @ [counter + ?n..<counter + ?n + length ?K]"
      using upt_add_eq_append [of counter "counter + ?n" "length ?K"] by (simp add: add.assoc)
    from Cons.IH [OF f2, of "counter + ?n"] Cons.prems(2) True step
    show ?thesis unfolding eq by (simp add: split add.assoc)
  qed
qed

lemma distinct_inletComponents: "distinct units \<Longrightarrow> distinct (inletComponents models units)"
proof (induction units)
  case Nil
  then show ?case by (simp add: inletComponents_def)
next
  case (Cons i units)
  have K: "fst ` set (inletComponents models units) \<subseteq> set units"
    by (auto simp: inletComponents_def split: if_splits)
  have eq: "inletComponents models (i # units) =
      (if hasInlet (models ! i) then map (Pair i) [0..<numComponents (models ! i)] else [])
      @ inletComponents models units"
    by (simp add: inletComponents_def)
  have "distinct (map (Pair i) [0..<numComponents (models ! i)])"
    by (simp add: distinct_map inj_on_def)
  with Cons K show ?case unfolding eq by (auto simp: distinct_map)
qed

lemma set_inletComponents:
  "set (inletComponents models [0..<n]) =
     {(i, c). i < n \<and> hasInlet (models ! i) \<and> c < numComponents (models ! i)}"
  by (auto simp: inletComponents_def)

lemma length_inletComponents:
  "length (inletComponents models [0..<length models]) =
     sum_list (map numComponents (filter hasInlet models))"
proof -
  have "length (inletComponents models (map f units)) =
      sum_list (map numComponents (filter hasInlet (map (\<lambda>i. models ! f i) units)))"
    for f :: "nat \<Rightarrow> nat" and units
    by (induction units) (simp_all add: inletComponents_def)
  from this [of "\<lambda>i. i" "[0..<length models]"] show ?thesis
    by (simp add: map_nth)
qed

lemma couplingLoop_rebuild:
  "couplingLoop models [0..<length models] ([], 0) =
      (zip (inletComponents models [0..<length models])
         [0..<length (inletComponents models [0..<length models])],
       length (inletComponents models [0..<length models]))"
  using couplingLoop_zip [of models "[0..<length models]" "[]" 0] by simp

lemma couplingIdxMap_rebuild:
  "couplingIdxMap (rebuildInternalDataStructures models e) =
     zip (inletComponents models [0..<length models])
         [0..<length (inletComponents models [0..<length models])]"
  "last (dofs (rebuildInternalDataStructures models e)) =
     length (inletComponents models [0..<length models])"
proof -
  note couplingLoop_rebuild [of models]
  then show
    "couplingIdxMap (rebuildInternalDataStructures models e) =
     zip (inletComponents models [0..<length models])
         [0..<length (inletComponents models [0..<length models])]"
    "last (dofs (rebuildInternalDataStructures models e)) =
     length (inletComponents models [0..<length models])"
    by (simp_all add: rebuildInternalDataStructures_def numCouplingDOF_def split: prod.splits)
qed

lemma map_of_zip_upt:
  "distinct ks \<Longrightarrow> j < length ks \<Longrightarrow> map_of (zip ks [0..<length ks]) (ks ! j) = Some j"
  using map_of_zip_nth [of ks "[0..<length ks]" j] by simp

text \<open>
  C5: after rebuilding the internal data structures, the coupling index map has exactly
  the pairs (unit index, component index) of the units with an inlet as its keys, it
  maps them one-to-one onto the range from 0 up to the number of coupling degrees of
  freedom, and that number, which is also the value of the counter after the loops and
  the last entry of the list of block sizes, is the sum of the numbers of components of
  the units with an inlet.
\<close>

theorem C5_coupling_index_map:
  "dom (map_of (couplingIdxMap (rebuildInternalDataStructures models e))) =
     {(i, c). i < length models \<and> hasInlet (models ! i) \<and> c < numComponents (models ! i)}
   \<and> bij_betw (\<lambda>k. the (map_of (couplingIdxMap (rebuildInternalDataStructures models e)) k))
        {(i, c). i < length models \<and> hasInlet (models ! i) \<and> c < numComponents (models ! i)}
        {0..<numCouplingDOF (couplingIdxMap (rebuildInternalDataStructures models e))}
   \<and> distinct (map fst (couplingIdxMap (rebuildInternalDataStructures models e)))
   \<and> numCouplingDOF (couplingIdxMap (rebuildInternalDataStructures models e)) =
       sum_list (map numComponents (filter hasInlet models))
   \<and> snd (couplingLoop models [0..<length models] ([], 0)) =
       sum_list (map numComponents (filter hasInlet models))
   \<and> last (dofs (rebuildInternalDataStructures models e)) =
       sum_list (map numComponents (filter hasInlet models))"
proof -
  let ?K = "inletComponents models [0..<length models]"
  let ?m = "couplingIdxMap (rebuildInternalDataStructures models e)"
  let ?S = "{(i, c). i < length models \<and> hasInlet (models ! i) \<and> c < numComponents (models ! i)}"
  have m: "?m = zip ?K [0..<length ?K]" by (rule couplingIdxMap_rebuild)
  have dK: "distinct ?K" by (rule distinct_inletComponents) simp
  have sK: "set ?K = ?S" by (rule set_inletComponents)
  have keys: "map fst ?m = ?K" unfolding m by (simp add: map_fst_zip)
  have look: "the (map_of ?m (?K ! j)) = j" if "j < length ?K" for j
    unfolding m using map_of_zip_upt [OF dK that] by simp
  have "dom (map_of ?m) = set ?K"
    using keys by (metis dom_map_of_conv_image_fst set_map)
  then have d: "dom (map_of ?m) = ?S" using sK by simp
  have n: "numCouplingDOF ?m = length ?K"
    unfolding m by (simp add: numCouplingDOF_def)
  have "bij_betw (\<lambda>k. the (map_of ?m k)) (set ?K) {0..<length ?K}"
  proof (rule bij_betwI')
    fix x y assume "x \<in> set ?K" "y \<in> set ?K"
    then obtain a b where ab: "a < length ?K" "x = ?K ! a" "b < length ?K" "y = ?K ! b"
      by (metis in_set_conv_nth)
    with dK show "(the (map_of ?m x) = the (map_of ?m y)) = (x = y)"
      by (simp only: look nth_eq_iff_index_eq)
  next
    fix x assume "x \<in> set ?K"
    then obtain a where "a < length ?K" "x = ?K ! a" by (metis in_set_conv_nth)
    then show "the (map_of ?m x) \<in> {0..<length ?K}" by (simp only: look) simp
  next
    fix j assume "j \<in> {0..<length ?K}"
    then have j: "j < length ?K" by simp
    then have "?K ! j \<in> set ?K" by simp
    with look [OF j] show "\<exists>x\<in>set ?K. j = the (map_of ?m x)" by metis
  qed
  then have b: "bij_betw (\<lambda>k. the (map_of ?m k)) ?S {0..<numCouplingDOF ?m}"
    using sK n by simp
  have cnt: "snd (couplingLoop models [0..<length models] ([], 0)) = length ?K"
    by (simp add: couplingLoop_rebuild)
  from d b dK keys n cnt length_inletComponents [of models] couplingIdxMap_rebuild(2) [of models e]
  show ?thesis by simp
qed

theorem C5_coupling_index_map_example:
  "numCouplingDOF (couplingIdxMap (rebuildInternalDataStructures
      [unitOp 0 3 True True, unitOp 1 4 False True, unitOp 2 2 True False] [])) = 5
   \<and> couplingIdxMap (rebuildInternalDataStructures
      [unitOp 0 3 True True, unitOp 1 4 False True, unitOp 2 2 True False] [])
     = [((0, 0), 0), ((0, 1), 1), ((0, 2), 2), ((2, 0), 3), ((2, 1), 4)]"
proof -
  have "couplingIdxMap (rebuildInternalDataStructures
      [unitOp 0 3 True True, unitOp 1 4 False True, unitOp 2 2 True False] [])
     = [((0, 0), 0), ((0, 1), 1), ((0, 2), 2), ((2, 0), 3), ((2, 1), 4)]"
    by (simp add: rebuildInternalDataStructures_def unitOp_def map_insert_def upt_conv_Cons
        numCouplingDOF_def)
  moreover from C5_coupling_index_map [of "[unitOp 0 3 True True, unitOp 1 4 False True, unitOp 2 2 True False]" "[]"]
  have "numCouplingDOF (couplingIdxMap (rebuildInternalDataStructures
      [unitOp 0 3 True True, unitOp 1 4 False True, unitOp 2 2 True False] [])) = 5"
    by (simp add: unitOp_def)
  ultimately show ?thesis by simp
qed

subsection \<open>Initial conditions\<close>

lemma applyInitialConditionLoop_fold:
  "applyInitialConditionLoop unitInit models offsets units r =
     \<lparr>stateY = fst (fold (\<lambda>i v. unitInit (models ! i) (offsets ! i) v) units
                       (stateY r, stateYdot r)),
      stateYdot = snd (fold (\<lambda>i v. unitInit (models ! i) (offsets ! i) v) units
                          (stateY r, stateYdot r)),
      delegated = delegated r @ map (\<lambda>i. unitOperationId (models ! i)) units\<rparr>"
proof (induction units arbitrary: r)
  case Nil
  then show ?case by simp
next
  case (Cons i units)
  obtain y yDot where u: "unitInit (models ! i) (offsets ! i) (stateY r, stateYdot r) = (y, yDot)"
    by (cases "unitInit (models ! i) (offsets ! i) (stateY r, stateYdot r)")
  show ?case
    by (simp add: u Cons.IH)
qed

lemma yDotOverride_eq:
  "(case INIT_STATE_YDOT paramProvider of
      Some initState \<Rightarrow>
        if n \<le> length initState then copyInto initState n vecStateYdot else vecStateYdot
    | None \<Rightarrow> vecStateYdot) = yDotOverride paramProvider n vecStateYdot"
  by (auto simp: yDotOverride_def copyInto_def fun_eq_iff split: option.splits)

text \<open>
  C10: the call skips the delegation to the unit operations if and only if
  \<^verbatim>\<open>INIT_STATE_Y\<close> exists and has at least \<^verbatim>\<open>numDofs()\<close> entries; in that case the
  first \<^verbatim>\<open>numDofs()\<close> entries of the array overwrite the state vector, nothing else of
  it changes and no unit is called. Otherwise, also when the array exists but is
  shorter, the state vector is not touched by the array and every unit is called once,
  in the order of the units, each on the vectors that its predecessors left and at its
  own offset: the vectors after the call are those of the last unit. In both cases the
  derivative vector is overwritten by \<^verbatim>\<open>INIT_STATE_YDOT\<close> when that exists with at least
  \<^verbatim>\<open>numDofs()\<close> entries, before any unit is called and without influence on whether the
  units are called.
\<close>

theorem C10_initial_condition:
  "((\<exists>initState. INIT_STATE_Y paramProvider = Some initState
        \<and> systemNumDofs l \<le> length initState) \<longrightarrow>
      applyInitialCondition unitInit models l paramProvider vecStateY vecStateYdot =
        \<lparr>stateY = (\<lambda>k. if k < systemNumDofs l then the (INIT_STATE_Y paramProvider) ! k
                        else vecStateY k),
         stateYdot = yDotOverride paramProvider (systemNumDofs l) vecStateYdot,
         delegated = []\<rparr>)
   \<and> (\<not> (\<exists>initState. INIT_STATE_Y paramProvider = Some initState
        \<and> systemNumDofs l \<le> length initState) \<longrightarrow>
      applyInitialCondition unitInit models l paramProvider vecStateY vecStateYdot =
        \<lparr>stateY = fst (fold (\<lambda>i v. unitInit (models ! i) (dofOffset l ! i) v)
                     [0..<length models]
                     (vecStateY, yDotOverride paramProvider (systemNumDofs l) vecStateYdot)),
         stateYdot = snd (fold (\<lambda>i v. unitInit (models ! i) (dofOffset l ! i) v)
                     [0..<length models]
                     (vecStateY, yDotOverride paramProvider (systemNumDofs l) vecStateYdot)),
         delegated = map unitOperationId models\<rparr>)"
proof -
  let ?n = "systemNumDofs l"
  let ?yd = "yDotOverride paramProvider ?n vecStateYdot"
  have ids: "map (\<lambda>i. unitOperationId (models ! i)) [0..<length models] = map unitOperationId models"
    by (rule nth_equalityI) simp_all
  have run: "applyInitialCondition unitInit models l paramProvider vecStateY vecStateYdot =
     (case (case INIT_STATE_Y paramProvider of
              Some initState \<Rightarrow>
                if ?n \<le> length initState
                then (copyInto initState ?n vecStateY, True)
                else (vecStateY, False)
            | None \<Rightarrow> (vecStateY, False)) of
        (y, skipModels) \<Rightarrow>
          if skipModels then \<lparr>stateY = y, stateYdot = ?yd, delegated = []\<rparr>
          else applyInitialConditionLoop unitInit models (dofOffset l) [0..<length models]
                 \<lparr>stateY = y, stateYdot = ?yd, delegated = []\<rparr>)"
    by (simp only: applyInitialCondition_def Let_def yDotOverride_eq)
  show ?thesis
  proof (cases "\<exists>initState. INIT_STATE_Y paramProvider = Some initState \<and> ?n \<le> length initState")
    case True
    then obtain initState where i: "INIT_STATE_Y paramProvider = Some initState"
      "?n \<le> length initState" by blast
    have "applyInitialCondition unitInit models l paramProvider vecStateY vecStateYdot =
        \<lparr>stateY = copyInto initState ?n vecStateY, stateYdot = ?yd, delegated = []\<rparr>"
      unfolding run by (simp add: i)
    then have "applyInitialCondition unitInit models l paramProvider vecStateY vecStateYdot =
        \<lparr>stateY = (\<lambda>k. if k < ?n then the (INIT_STATE_Y paramProvider) ! k else vecStateY k),
         stateYdot = ?yd, delegated = []\<rparr>"
      by (simp only: copyInto_def i option.sel)
    with True show ?thesis by blast
  next
    case False
    then have "(case INIT_STATE_Y paramProvider of
              Some initState \<Rightarrow>
                if ?n \<le> length initState
                then (copyInto initState ?n vecStateY, True)
                else (vecStateY, False)
            | None \<Rightarrow> (vecStateY, False)) = (vecStateY, False)"
      by (cases "INIT_STATE_Y paramProvider") simp_all
    then have "applyInitialCondition unitInit models l paramProvider vecStateY vecStateYdot =
        applyInitialConditionLoop unitInit models (dofOffset l) [0..<length models]
          \<lparr>stateY = vecStateY, stateYdot = ?yd, delegated = []\<rparr>"
      unfolding run by simp
    then have "applyInitialCondition unitInit models l paramProvider vecStateY vecStateYdot =
        \<lparr>stateY = fst (fold (\<lambda>i v. unitInit (models ! i) (dofOffset l ! i) v)
                     [0..<length models] (vecStateY, ?yd)),
         stateYdot = snd (fold (\<lambda>i v. unitInit (models ! i) (dofOffset l ! i) v)
                     [0..<length models] (vecStateY, ?yd)),
         delegated = map unitOperationId models\<rparr>"
      by (simp add: applyInitialConditionLoop_fold ids)
    with False show ?thesis by blast
  qed
qed

theorem C10_initial_condition_witness:
  "applyInitialCondition stampUnit twoUnits twoBlocks
       \<lparr>INIT_STATE_Y = Some [5, 6, 7, 8], INIT_STATE_YDOT = None\<rparr> (\<lambda>k. 0) (\<lambda>k. 0)
     = \<lparr>stateY = (\<lambda>k. if k < 3 then [5, 6, 7, 8] ! k else 0), stateYdot = (\<lambda>k. 0),
        delegated = []\<rparr>
   \<and> delegated (applyInitialCondition stampUnit twoUnits
       twoBlocks \<lparr>INIT_STATE_Y = Some [5, 6], INIT_STATE_YDOT = Some [8, 9, 10]\<rparr>
       (\<lambda>k. 0) (\<lambda>k. 0)) = [3, 7]
   \<and> map (stateY (applyInitialCondition stampUnit twoUnits
       twoBlocks \<lparr>INIT_STATE_Y = Some [5, 6], INIT_STATE_YDOT = Some [8, 9, 10]\<rparr>
       (\<lambda>k. 0) (\<lambda>k. 0))) [0, 1, 2] = [3, 0, 7]
   \<and> map (stateYdot (applyInitialCondition stampUnit twoUnits
       twoBlocks \<lparr>INIT_STATE_Y = Some [5, 6], INIT_STATE_YDOT = Some [8, 9, 10]\<rparr>
       (\<lambda>k. 0) (\<lambda>k. 0))) [0, 1, 2] = [9, 9, 11]"
proof -
  let ?ms = twoUnits
  let ?long = "\<lparr>INIT_STATE_Y = Some [5, 6, 7, 8], INIT_STATE_YDOT = None\<rparr>"
  let ?short = "\<lparr>INIT_STATE_Y = Some [5, 6], INIT_STATE_YDOT = Some [8, 9, 10]\<rparr>"
  have n: "systemNumDofs twoBlocks = 3"
    by (simp add: systemNumDofs_def twoBlocks_def numCouplingDOF_def)
  have long: "\<exists>initState. INIT_STATE_Y ?long = Some initState
        \<and> systemNumDofs twoBlocks \<le> length initState"
    by (simp add: n)
  have short: "\<not> (\<exists>initState. INIT_STATE_Y ?short = Some initState
        \<and> systemNumDofs twoBlocks \<le> length initState)"
    by (simp add: n)
  from C10_initial_condition [of ?long twoBlocks stampUnit ?ms "\<lambda>k. 0" "\<lambda>k. 0"] long
  have a: "applyInitialCondition stampUnit ?ms twoBlocks ?long (\<lambda>k. 0) (\<lambda>k. 0)
     = \<lparr>stateY = (\<lambda>k. if k < 3 then [5, 6, 7, 8] ! k else 0), stateYdot = (\<lambda>k. 0),
        delegated = []\<rparr>"
    by (simp add: n yDotOverride_def cong: if_cong)
  have up: "[0..<length ?ms] = [0, 1]" by (simp add: twoUnits_def upt_rec)
  from C10_initial_condition [of ?short twoBlocks stampUnit ?ms "\<lambda>k. 0" "\<lambda>k. 0"] short
  have b: "applyInitialCondition stampUnit ?ms twoBlocks ?short (\<lambda>k. 0) (\<lambda>k. 0)
     = \<lparr>stateY = fst (stampUnit (twoUnits ! 1) 2 (stampUnit (twoUnits ! 0) 0
                   (\<lambda>k. 0, yDotOverride ?short 3 (\<lambda>k. 0)))),
        stateYdot = snd (stampUnit (twoUnits ! 1) 2 (stampUnit (twoUnits ! 0) 0
                   (\<lambda>k. 0, yDotOverride ?short 3 (\<lambda>k. 0)))),
        delegated = [3, 7]\<rparr>"
    by (simp add: n up) (simp add: twoBlocks_def twoUnits_def unitOp_def)
  show ?thesis unfolding a b
    by (simp add: stampUnit_def yDotOverride_def twoUnits_def unitOp_def)
qed


subsection \<open>The current switch\<close>










lemma replicate_small:
  "replicate 2 x = [x, x]" "replicate 3 x = [x, x, x]" "replicate 4 x = [x, x, x, x]"
  "replicate 8 x = [x, x, x, x, x, x, x, x]"
  by (simp_all add: numeral_eq_Suc)

text \<open>
  C8, on two inputs whose unit operation ids differ from the local indices of the units.
  In the first, the units with the ids 1, 0 and 2 are connected by the rows \<open>0 \<rightarrow> 2\<close> with
  the flow rate 1 and \<open>1 \<rightarrow> 2\<close> with the flow rate 5: two distinct pairs, yet the second
  row is given the flow rate 1, and the parameter registered for its pair (local
  indices 0 and 2) points at that entry. In the second, the units with the ids 1 and 2
  are connected by two rows \<open>1 \<rightarrow> 2\<close> for two components, with the flow rates 1 and 5: the
  second row of the pair keeps 5 instead of the flow rate of the first row.
\<close>

theorem C8_first_flow_rate_failing_inputs:
  "configureSwitches binary64 [unitOp 1 2 False True, unitOp 0 2 False True, unitOp 2 2 True False]
      [\<lparr>SECTION = 0, CONNECTIONS = [0, 2, -1, -1, 1, 1, 2, -1, -1, 5]\<rparr>] noSwitches
     = Inr \<lparr>switchSectionIndex = [0],
            connections = [[1, 2, -1, -1, 0, 2, -1, -1]],
            flowRateSlices = [[1, 1]],
            parameters = [(CONNECTION 1 2 0, 0, 0), (CONNECTION 0 2 0, 0, 1)]\<rparr>
   \<and> configureSwitches binary64 [unitOp 1 2 False True, unitOp 2 2 True False]
      [\<lparr>SECTION = 0, CONNECTIONS = [1, 2, 0, 0, 1, 1, 2, 1, 1, 5]\<rparr>] noSwitches
     = Inr \<lparr>switchSectionIndex = [0],
            connections = [[0, 1, 0, 0, 0, 1, 1, 1]],
            flowRateSlices = [[1, 5]],
            parameters = [(CONNECTION 0 1 0, 0, 0)]\<rparr>"
  by (simp add: configureSwitches_def noSwitches_def checkConnectionList_def checkRow_def
      checkBalanceOf_def unitOp_def isTerminal_def indexOfUnitOp_def findPrevious_def Let_def
      upt_rec AList.update_def replicate_small)

end
